theory Spec2Isabelle
  imports Complex_Main "HOL-Library.Word"
begin

unbundle bit_operations_syntax

section \<open>Machine integers and floating point values\<close>

text \<open>
  Go's \<^verbatim>\<open>int\<close> is a 64-bit two's complement integer on the platforms the server is
  built for. It is modelled by \<^typ>\<open>int\<close> with the wrap-around written out: \<open>wrap64\<close>
  brings a mathematical result back into \<open>-2^63 ..< 2^63\<close>.

  A left shift \<^verbatim>\<open>a << n\<close> multiplies by \<open>2 ^ n\<close> and wraps; Go panics on a negative
  shift count, which cannot occur in \<^verbatim>\<open>GetPixel\<close>: each shift count is computed in a
  branch that makes it non-negative.
\<close>

definition wrap64 :: "int \<Rightarrow> int" where
  "wrap64 v = (v + 2 ^ 63) mod 2 ^ 64 - 2 ^ 63"

definition shl :: "int \<Rightarrow> int \<Rightarrow> int" where
  "shl a n = wrap64 (a * 2 ^ nat n)"

text \<open>
  A finite \<^verbatim>\<open>float64\<close> is modelled by the rational number it denotes. The operations
  of \<^verbatim>\<open>GetPixel\<close> and \<^verbatim>\<open>GetSum\<close> are exact on the values they meet: cell values are
  integers below \<open>2^16\<close>, block sums of such cells stay far below \<open>2^53\<close>, and every
  divisor is a power of two. Go's division of a float by zero gives an infinity or NaN;
  HOL's gives 0. That happens in \<^verbatim>\<open>GetPixel\<close> only from zoom 44 on, where \<^verbatim>\<open>dz*dz\<close>
  wraps to 0, and the theorems below stay under that zoom.
\<close>

type_synonym float64 = rat

definition float64_of_int :: "int \<Rightarrow> float64" where
  "float64_of_int i = of_int i"

text \<open>\<^verbatim>\<open>int(f)\<close> on a float truncates towards zero.\<close>

definition int_of_float64 :: "float64 \<Rightarrow> int" where
  "int_of_float64 f = (if 0 \<le> f then \<lfloor>f\<rfloor> else - \<lfloor>- f\<rfloor>)"

section \<open>The density raster\<close>

text \<open>
  \<^verbatim>\<open>image.At(x, y).RGBA()\<close> gives four channel values; \<^verbatim>\<open>GetPixel\<close> reads the first two.
  The \<^verbatim>\<open>color.Color\<close> interface keeps each value within \<open>[0, 0xffff]\<close>, in a \<^verbatim>\<open>uint32\<close>;
  the model keeps the 16 bits. The decoded image is a parameter of the model: a function
  from a position to its red and green channel (the zero colour outside the image's
  bounds, as the image package has it).
\<close>

type_synonym image = "int \<Rightarrow> int \<Rightarrow> 16 word \<times> 16 word"

text \<open>
  The value the code reads from one cell, in its three spellings (lines 245, 251, 257):
  \<^verbatim>\<open>float64(int(red>>8)*256) + float64(green>>8)\<close> in the first two branches and
  \<^verbatim>\<open>float64(int(red>>8)*256+int(green>>8))\<close> in the third.
\<close>

definition cell_sum :: "image \<Rightarrow> int \<Rightarrow> int \<Rightarrow> float64" where
  "cell_sum img x y =
     (case img x y of (red, green) \<Rightarrow>
        float64_of_int (wrap64 (uint (drop_bit 8 red) * 256)) + float64_of_int (uint (drop_bit 8 green)))"

definition cell_int :: "image \<Rightarrow> int \<Rightarrow> int \<Rightarrow> int" where
  "cell_int img x y =
     (case img x y of (red, green) \<Rightarrow>
        wrap64 (wrap64 (uint (drop_bit 8 red) * 256) + uint (drop_bit 8 green)))"

text \<open>
  The inner and the outer loop of the branch \<^verbatim>\<open>z < 12\<close>. The loop variable stays below
  a bound that is itself a 64-bit value, so its increment cannot wrap.
\<close>

function inner_loop :: "image \<Rightarrow> int \<Rightarrow> int \<Rightarrow> int \<Rightarrow> float64 \<Rightarrow> float64" where
  "inner_loop img ix iy hi acc =
     (if iy < hi then inner_loop img ix (iy + 1) hi (acc + cell_sum img ix iy) else acc)"
  by pat_completeness auto
termination
  by (relation "measure (\<lambda>(img, ix, iy, hi, acc). nat (hi - iy))") auto

declare inner_loop.simps [simp del]

function outer_loop :: "image \<Rightarrow> int \<Rightarrow> int \<Rightarrow> int \<Rightarrow> int \<Rightarrow> float64 \<Rightarrow> float64" where
  "outer_loop img ix hi y dz acc =
     (if ix < hi
      then outer_loop img (ix + 1) hi y dz
             (inner_loop img ix (wrap64 (y * dz)) (wrap64 (wrap64 (y * dz) + dz)) acc)
      else acc)"
  by pat_completeness auto
termination
  by (relation "measure (\<lambda>(img, ix, hi, y, dz, acc). nat (hi - ix))") auto

declare outer_loop.simps [simp del]

definition GetPixel :: "image \<Rightarrow> int \<Rightarrow> int \<Rightarrow> int \<Rightarrow> float64" where
  "GetPixel img z x y =
     (if z < 12 then
        (let dz = shl 2 ((12 - z) - 1)
         in outer_loop img (wrap64 (x * dz)) (wrap64 (wrap64 (x * dz) + dz)) y dz 0)
      else if z = 12 then cell_sum img x y
      else
        (let dz = shl 2 ((z - 12) - 1);
             x' = int_of_float64 (of_int \<lfloor>float64_of_int x / float64_of_int dz\<rfloor>);
             y' = int_of_float64 (of_int \<lfloor>float64_of_int y / float64_of_int dz\<rfloor>)
         in float64_of_int (cell_int img x' y') / float64_of_int (wrap64 (dz * dz))))"

text \<open>
  The raw value of a reference cell as the specification names it: the high byte from
  the red channel times 256 plus the low byte from the green channel.
\<close>

definition raw_value :: "image \<Rightarrow> int \<Rightarrow> int \<Rightarrow> int" where
  "raw_value img x y = uint (drop_bit 8 (fst (img x y))) * 256 + uint (drop_bit 8 (snd (img x y)))"

section \<open>Geometries and the libraries the server calls\<close>

text \<open>
  The geometry kinds of the \<^verbatim>\<open>orb\<close> package. A point is a pair of coordinates,
  stored as (longitude, latitude); a ring is a list of points; a polygon is a list of
  rings; a multipolygon is a list of polygons.
\<close>

type_synonym point = "float64 \<times> float64"

datatype geometry =
    Point point
  | MultiPoint "point list"
  | LineString "point list"
  | MultiLineString "point list list"
  | Polygon "point list list"
  | MultiPolygon "point list list list"
  | Collection "geometry list"
  | Bound point point

text \<open>The content of a POST request (the Go struct \<^verbatim>\<open>Input\<close>).\<close>

record Input =
  Name :: string
  RegionType :: string
  RegionData :: string

text \<open>A map tile of \<^verbatim>\<open>orb/maptile\<close>: three \<^verbatim>\<open>uint32\<close> fields.\<close>

record tile =
  X :: "32 word"
  Y :: "32 word"
  Z :: "32 word"

text \<open>
  The functions of other packages that the server calls are parameters of the model,
  collected in one record:
  \<^item> \<open>decode_input\<close>: \<^verbatim>\<open>json.NewDecoder(body).Decode(&input)\<close>, \<open>None\<close> on an error;
  \<^item> \<open>UnmarshalGeometry\<close>: \<^verbatim>\<open>geojson.UnmarshalGeometry\<close> followed by \<^verbatim>\<open>.Geometry()\<close>;
  \<^item> \<open>MarshalJSON\<close>: the parsed geometry serialized again;
  \<^item> \<open>Unmarshal_coords\<close>: what \<^verbatim>\<open>coords\<close> holds after
    \<^verbatim>\<open>json.Unmarshal(input.RegionData, &coords)\<close>, whose error the code drops;
  \<^item> \<open>format_float\<close>: the JSON text of one \<^verbatim>\<open>float64\<close>;
  \<^item> \<open>Area\<close>: \<^verbatim>\<open>planar.Area\<close>;
  \<^item> \<open>MultiPoint_Bound\<close>: \<^verbatim>\<open>orb.MultiPoint{...}.Bound()\<close>;
  \<^item> \<open>tilecover_Geometry\<close>: the keys of the tile set that \<^verbatim>\<open>tilecover.Geometry\<close>
    returns (its error is dropped by the code), in the order the \<^verbatim>\<open>range\<close> loop meets them;
  \<^item> \<open>time_Parse\<close>: \<^verbatim>\<open>time.Parse(time.RFC3339, strings.TrimSpace(s))\<close>, in nanoseconds;
  \<^item> \<open>time_Format\<close>: \<^verbatim>\<open>t.Format(time.RFC3339)\<close>.
\<close>

record lib =
  decode_input :: "string \<Rightarrow> Input option"
  UnmarshalGeometry :: "string \<Rightarrow> geometry option"
  MarshalJSON :: "geometry \<Rightarrow> string"
  Unmarshal_coords :: "string \<Rightarrow> float64 list"
  format_float :: "float64 \<Rightarrow> string"
  Area :: "geometry \<Rightarrow> float64"
  MultiPoint_Bound :: "point list \<Rightarrow> geometry"
  tilecover_Geometry :: "geometry \<Rightarrow> int \<Rightarrow> tile list"
  time_Parse :: "string \<Rightarrow> int option"
  time_Format :: "int \<Rightarrow> string"

text \<open>
  \<^verbatim>\<open>json.Marshal\<close> of a slice of floats writes a JSON array: the elements separated by
  commas, between square brackets.
\<close>

fun join_comma :: "string list \<Rightarrow> string" where
  "join_comma [] = []"
| "join_comma [s] = s"
| "join_comma (s # t # ts) = s @ '','' @ join_comma (t # ts)"

definition Marshal_coords :: "lib \<Rightarrow> float64 list \<Rightarrow> string" where
  "Marshal_coords L cs = ''['' @ join_comma (map (format_float L) cs) @ '']''"

section \<open>The node-count estimate\<close>

text \<open>
  The loop of \<^verbatim>\<open>GetSum\<close> over the zoom levels: \<^verbatim>\<open>covering\<close> is assigned at each level and
  the loop is left when it holds more than 256 tiles. The tiles that
  \<^verbatim>\<open>tilecover.Geometry(geom, z)\<close> returns are tiles of zoom \<open>z\<close>, at most 14 here, so that
  \<^verbatim>\<open>GetPixel\<close> gives whole numbers or multiples of 1/16 and their sum is exact in
  \<^verbatim>\<open>float64\<close>, in whatever order the \<^verbatim>\<open>range\<close> loop meets the tiles.
\<close>

function cover_loop :: "lib \<Rightarrow> geometry \<Rightarrow> int \<Rightarrow> tile list \<Rightarrow> tile list" where
  "cover_loop L geom z covering =
     (if z \<le> 14 then
        (let c = tilecover_Geometry L geom z
         in if 256 < length c then c else cover_loop L geom (z + 1) c)
      else covering)"
  by pat_completeness auto
termination
  by (relation "measure (\<lambda>(L, geom, z, covering). nat (15 - z))") auto

declare cover_loop.simps [simp del]

definition GetSum :: "lib \<Rightarrow> image \<Rightarrow> geometry \<Rightarrow> int" where
  "GetSum L img geom =
     (let covering = cover_loop L geom 0 [];
          sum = fold (\<lambda>t acc. acc + GetPixel img (uint (Z t)) (uint (X t)) (uint (Y t))) covering 0
      in int_of_float64 (sum * 32))"

text \<open>
  The zoom level the specification describes: the first level from 0 to 14 at which the
  covering set has more than 256 tiles, and 14 when there is none.
\<close>

definition zoom_reached :: "lib \<Rightarrow> geometry \<Rightarrow> int" where
  "zoom_reached L geom =
     (case find (\<lambda>z. 256 < length (tilecover_Geometry L geom z)) [0..14] of
        Some z \<Rightarrow> z
      | None \<Rightarrow> 14)"

section \<open>The region validator\<close>

text \<open>The loop over the rings of a polygon (lines 284 to 288 and 297 to 301).\<close>

fun ring_check :: "point list list \<Rightarrow> string option" where
  "ring_check [] = None"
| "ring_check (ring # rings) =
     (if length ring < 4 then Some ''ring does not have enough coordinates''
      else ring_check rings)"

text \<open>The loop over the polygons of a multipolygon (lines 293 to 302).\<close>

fun polygon_check :: "point list list list \<Rightarrow> string option" where
  "polygon_check [] = None"
| "polygon_check (polygon # polygons) =
     (if length polygon = 0 then Some ''geom does not have enough rings''
      else (case ring_check polygon of
              Some err \<Rightarrow> Some err
            | None \<Rightarrow> polygon_check polygons))"

text \<open>The type switch (lines 279 to 303): \<open>None\<close> when no case returns an error.\<close>

definition geometry_check :: "geometry \<Rightarrow> string option" where
  "geometry_check geom =
     (case geom of
        Polygon v \<Rightarrow>
          (if length v = 0 then Some ''geom does not have enough rings'' else ring_check v)
      | MultiPolygon v \<Rightarrow>
          (if length v = 0 then Some ''geom does not have enough rings'' else polygon_check v)
      | _ \<Rightarrow> None)"

text \<open>
  The part of \<^verbatim>\<open>parseInput\<close> that depends on the region type (lines 273 to 315): an
  error, or the geometry and the sanitized payload.
\<close>

definition region_geometry :: "lib \<Rightarrow> Input \<Rightarrow> string + geometry \<times> string" where
  "region_geometry L input =
     (if RegionType input = ''geojson'' then
        (case UnmarshalGeometry L (RegionData input) of
           None \<Rightarrow> Inl ''input GeoJSON is invalid''
         | Some geom \<Rightarrow>
             (case geometry_check geom of
                Some err \<Rightarrow> Inl err
              | None \<Rightarrow> Inr (geom, MarshalJSON L geom)))
      else if RegionType input = ''bbox'' then
        (let coords = Unmarshal_coords L (RegionData input)
         in if length coords < 4 then Inl ''input does not have >3 coordinates''
            else Inr (MultiPoint_Bound L [(coords ! 1, coords ! 0), (coords ! 3, coords ! 2)],
                      Marshal_coords L (take 4 coords)))
      else Inl ''invalid input RegionType'')"

definition parseInput :: "lib \<Rightarrow> string \<Rightarrow> string + geometry \<times> string \<times> string \<times> string" where
  "parseInput L body =
     (case decode_input L body of
        None \<Rightarrow> Inl ''input GeoJSON is invalid''
      | Some input \<Rightarrow>
          (case region_geometry L input of
             Inl err \<Rightarrow> Inl err
           | Inr (geom, sanitizedData) \<Rightarrow>
               if Area L geom = 0 then Inl ''Input has 0 area''
               else Inr (geom, Name input, RegionType input, sanitizedData)))"

text \<open>
  The rejection the specification words: a polygon with no ring or with a ring of fewer
  than 4 coordinates, a multipolygon with no polygon, with a polygon that has no ring,
  or with a ring of fewer than 4 coordinates.
\<close>

fun rings_rejected :: "geometry \<Rightarrow> bool" where
  "rings_rejected (Polygon v) = (v = [] \<or> list_ex (\<lambda>ring. length ring < 4) v)"
| "rings_rejected (MultiPolygon m) =
     (m = [] \<or> list_ex (\<lambda>polygon. polygon = [] \<or> list_ex (\<lambda>ring. length ring < 4) polygon) m)"
| "rings_rejected _ = False"

section \<open>The server state\<close>

text \<open>The Go structs \<^verbatim>\<open>Progress\<close>, \<^verbatim>\<open>Task\<close> and \<^verbatim>\<open>SystemState\<close>.\<close>

record Progress =
  Timestamp :: string
  CellsTotal :: int
  CellsProg :: int
  NodesTotal :: int
  NodesProg :: int
  ElemsTotal :: int
  ElemsProg :: int
  SizeBytes :: int
  Elapsed :: float64
  Complete :: bool

text \<open>The zero value \<^verbatim>\<open>Progress{}\<close>.\<close>

definition zero_Progress :: Progress where
  "zero_Progress =
     \<lparr>Timestamp = [], CellsTotal = 0, CellsProg = 0, NodesTotal = 0, NodesProg = 0,
      ElemsTotal = 0, ElemsProg = 0, SizeBytes = 0, Elapsed = 0, Complete = False\<rparr>"

record Task =
  Uuid :: string
  SanitizedName :: string
  SanitizedRegionType :: string
  SanitizedRegionData :: string

record SystemState =
  Status :: string
  QueueSize :: int
  NodesLimit :: int
  Timestamp_state :: string

text \<open>
  A buffered channel: the tasks waiting in its buffer, oldest first, and its capacity.
  \<open>try_send\<close> is the \<^verbatim>\<open>select\<close> with a \<^verbatim>\<open>default\<close> case around a send: \<open>None\<close> is the
  default case.
\<close>

record chan =
  buf :: "Task list"
  capacity :: nat

definition make_chan :: "nat \<Rightarrow> chan" where
  "make_chan n = \<lparr>buf = [], capacity = n\<rparr>"

definition try_send :: "chan \<Rightarrow> Task \<Rightarrow> chan option" where
  "try_send c t = (if length (buf c) < capacity c then Some (c\<lparr>buf := buf c @ [t]\<rparr>) else None)"

text \<open>
  Files hold one of four kinds of content: the bytes of a region description, the JSON of
  a task, the JSON of a progress record, or the extract the tool produced. A path is a
  directory and a file name, as \<^verbatim>\<open>filepath.Join\<close> receives them; the file names the server
  builds contain no separator.
\<close>

datatype file_content = Bytes string | TaskJson Task | ProgressJson Progress | Extract_output int

type_synonym path = "string \<times> string"

definition Join :: "string \<Rightarrow> string \<Rightarrow> path" where
  "Join dir name = (dir, name)"

text \<open>The two commands the server runs, with their arguments.\<close>

datatype command =
    Extract string string path path
  | Query_timestamp string string

text \<open>The errors \<^verbatim>\<open>runTask\<close> returns, by the call that failed.\<close>

datatype run_error =
    CreateFailed | SliceOutOfRange | MarshalFailed | WriteFileFailed | StartFailed
  | DecodeFailed | WaitFailed | OpenFailed | StatFailed | RenameFailed | RemoveFailed

text \<open>
  The state: the fields of the Go struct \<^verbatim>\<open>Server\<close> (the registry \<open>progress\<close>, the
  \<open>queue\<close>, the two directories, the tool's path and data file, the raster, the node
  limit and the two times of \<^verbatim>\<open>lastUpdated\<close>, in nanoseconds), and around them the file
  system, the commands run so far, the errors reported to Sentry, and whether a panic
  has ended the process.
\<close>

record state =
  progress :: "string \<rightharpoonup> Progress"
  queue :: chan
  filesDir :: string
  tmpDir :: string
  exec :: string
  data :: string
  image_raster :: image
  nodesLimit :: int
  lastUpdated_timestamp :: int
  lastUpdated_checkedAt :: int
  fs :: "path \<rightharpoonup> file_content"
  commands :: "command list"
  reported :: "run_error list"
  crashed :: bool

section \<open>Running a task\<close>

text \<open>
  What the outside world does during one run of \<^verbatim>\<open>runTask\<close>: which calls succeed, the
  lines the tool writes to its standard output before closing it, each with the
  \<^verbatim>\<open>Progress\<close> it decodes to (\<open>None\<close> for a line that does not decode), the file the
  tool leaves at the output path, the size \<^verbatim>\<open>Stat\<close> reports and the elapsed seconds.
  A tool that never closes its output keeps \<^verbatim>\<open>runTask\<close> from returning; such a run
  has no list of lines and is outside the model.
\<close>

record run_env =
  create_ok :: bool
  marshal_task_ok :: bool
  write_region_json_ok :: bool
  start_ok :: bool
  lines :: "Progress option list"
  tool_output :: "file_content option"
  wait_ok :: bool
  open_ok :: bool
  stat_size :: "int option"
  rename_ok :: bool
  remove_ok :: bool
  elapsed_seconds :: float64
  marshal_completion_ok :: bool
  write_completion_ok :: bool

text \<open>A stage of \<^verbatim>\<open>runTask\<close> gives the error it returns, if any, and the state it leaves.\<close>

type_synonym stage = "run_error option \<times> state"

definition and_then :: "stage \<Rightarrow> (state \<Rightarrow> stage) \<Rightarrow> stage" where
  "and_then r f = (case r of (Some err, s) \<Rightarrow> (Some err, s) | (None, s) \<Rightarrow> f s)"

text \<open>The Go slice expression \<^verbatim>\<open>b[lo:hi]\<close>, where \<open>lo \<le> hi \<le> length b\<close>.\<close>

definition slice :: "'a list \<Rightarrow> nat \<Rightarrow> nat \<Rightarrow> 'a list" where
  "slice b lo hi = take (hi - lo) (drop lo b)"

text \<open>
  Lines 110 to 121: the region description. The slice \<^verbatim>\<open>[1 : len-1]\<close> panics when the
  payload has fewer than two bytes. The results of the writes are not looked at by the
  code; the model takes them to succeed.
\<close>

definition write_region_file :: "run_env \<Rightarrow> Task \<Rightarrow> state \<Rightarrow> stage" where
  "write_region_file e task s =
     (let regionPath = Join (tmpDir s) (Uuid task @ ''.'' @ SanitizedRegionType task)
      in if \<not> create_ok e then (Some CreateFailed, s)
         else if SanitizedRegionType task = ''bbox'' then
           (if length (SanitizedRegionData task) < 2
            then (Some SliceOutOfRange, s\<lparr>fs := (fs s)(regionPath \<mapsto> Bytes [])\<rparr>)
            else (None, s\<lparr>fs := (fs s)(regionPath \<mapsto>
                    Bytes (slice (SanitizedRegionData task) 1 (length (SanitizedRegionData task) - 1)))\<rparr>))
         else (None, s\<lparr>fs := (fs s)(regionPath \<mapsto> Bytes (SanitizedRegionData task))\<rparr>))"

text \<open>Lines 123 to 130: the echo of the submission in the files directory.\<close>

definition write_region_json :: "run_env \<Rightarrow> Task \<Rightarrow> state \<Rightarrow> stage" where
  "write_region_json e task s =
     (if \<not> marshal_task_ok e then (Some MarshalFailed, s)
      else if \<not> write_region_json_ok e then (Some WriteFileFailed, s)
      else (None, s\<lparr>fs := (fs s)(Join (filesDir s) (Uuid task @ ''_region.json'') \<mapsto> TaskJson task)\<rparr>))"

text \<open>
  Lines 141 to 151: each line replaces the registry entry of the task; the first line
  that does not decode ends the loop with an error.
\<close>

fun read_lines :: "string \<Rightarrow> Progress option list \<Rightarrow> (string \<rightharpoonup> Progress) \<Rightarrow> bool \<times> (string \<rightharpoonup> Progress)" where
  "read_lines uuid [] reg = (True, reg)"
| "read_lines uuid (None # ls) reg = (False, reg)"
| "read_lines uuid (Some p # ls) reg = read_lines uuid ls (reg(uuid \<mapsto> p))"

text \<open>Lines 132 to 155: the tool is started, its output is read and its exit awaited.\<close>

definition run_extract :: "run_env \<Rightarrow> Task \<Rightarrow> state \<Rightarrow> stage" where
  "run_extract e task s =
     (let pbfPath = Join (tmpDir s) (Uuid task @ ''.osm.pbf'');
          regionPath = Join (tmpDir s) (Uuid task @ ''.'' @ SanitizedRegionType task)
      in if \<not> start_ok e then (Some StartFailed, s)
         else
           (let s1 = s\<lparr>commands := commands s @ [Extract (exec s) (data s) pbfPath regionPath],
                          fs := (case tool_output e of None \<Rightarrow> fs s | Some f \<Rightarrow> (fs s)(pbfPath \<mapsto> f))\<rparr>;
                r = read_lines (Uuid task) (lines e) (progress s1);
                s2 = s1\<lparr>progress := snd r\<rparr>
            in if \<not> fst r then (Some DecodeFailed, s2)
               else if \<not> wait_ok e then (Some WaitFailed, s2)
               else (None, s2)))"

text \<open>
  Lines 157 to 193: the extract is moved to the files directory, the region description
  is removed, the registry entry is deleted and the completion record is written.
\<close>

definition finish_task :: "run_env \<Rightarrow> Task \<Rightarrow> state \<Rightarrow> stage" where
  "finish_task e task s =
     (let uuid = Uuid task;
          pbfPath = Join (tmpDir s) (uuid @ ''.osm.pbf'');
          regionPath = Join (tmpDir s) (uuid @ ''.'' @ SanitizedRegionType task)
      in if \<not> open_ok e \<or> fs s pbfPath = None then (Some OpenFailed, s)
         else (case stat_size e of
                 None \<Rightarrow> (Some StatFailed, s)
               | Some sz \<Rightarrow>
                   if \<not> rename_ok e then (Some RenameFailed, s)
                   else
                     (let s1 = s\<lparr>fs := ((fs s)(pbfPath := None))
                                          (Join (filesDir s) (uuid @ ''.osm.pbf'') := fs s pbfPath)\<rparr>
                      in if \<not> remove_ok e \<or> fs s1 regionPath = None then (Some RemoveFailed, s1)
                         else
                           (let s2 = s1\<lparr>fs := (fs s1)(regionPath := None)\<rparr>;
                                lastProgress = (case progress s2 uuid of
                                                  Some p \<Rightarrow> p
                                                | None \<Rightarrow> zero_Progress);
                                s3 = s2\<lparr>progress := (progress s2)(uuid := None)\<rparr>;
                                completion = lastProgress\<lparr>Elapsed := elapsed_seconds e,
                                                Complete := True, SizeBytes := sz\<rparr>
                            in if \<not> marshal_completion_ok e then (Some MarshalFailed, s3)
                               else if \<not> write_completion_ok e then (Some WriteFileFailed, s3)
                               else (None, s3\<lparr>fs := (fs s3)(Join (filesDir s) uuid \<mapsto>
                                                ProgressJson completion)\<rparr>)))))"

definition runTask :: "run_env \<Rightarrow> state \<Rightarrow> Task \<Rightarrow> stage" where
  "runTask e s task =
     and_then (and_then (and_then (write_region_file e task s)
       (write_region_json e task)) (run_extract e task)) (finish_task e task)"

text \<open>
  One turn of the loop of \<^verbatim>\<open>worker\<close> (lines 197 to 208): \<open>None\<close> when the queue is
  empty and the worker waits. An error is reported to Sentry; the panic of the slice
  expression is not an error value and ends the process.
\<close>

definition dequeue :: "state \<Rightarrow> (Task \<times> state) option" where
  "dequeue s =
     (case buf (queue s) of
        [] \<Rightarrow> None
      | task # rest \<Rightarrow>
          Some (task, s\<lparr>queue := (queue s)\<lparr>buf := rest\<rparr>,
                         progress := (progress s)(Uuid task \<mapsto> zero_Progress)\<rparr>))"

definition worker :: "run_env \<Rightarrow> state \<Rightarrow> state option" where
  "worker e s =
     (case dequeue s of
        None \<Rightarrow> None
      | Some (task, s1) \<Rightarrow>
          (case runTask e s1 task of
             (None, s2) \<Rightarrow> Some s2
           | (Some SliceOutOfRange, s2) \<Rightarrow> Some (s2\<lparr>crashed := True\<rparr>)
           | (Some err, s2) \<Rightarrow> Some (s2\<lparr>reported := reported s2 @ [err]\<rparr>)))"

text \<open>\<^verbatim>\<open>StartWorkers\<close> (lines 211 to 218); the goroutines it starts are the turns of \<open>worker\<close>.\<close>

definition StartWorkers :: "state \<Rightarrow> state" where
  "StartWorkers s = s\<lparr>queue := make_chan 512, progress := Map.empty\<rparr>"

section \<open>The HTTP handler\<close>

text \<open>
  A response is its status code (200 when the handler never calls \<^verbatim>\<open>WriteHeader\<close>) and
  what was written to it.
\<close>

datatype content =
    NoBody
  | Text string
  | ProgressDoc Progress
  | StateDoc SystemState
  | FileDoc file_content
  | ImageBytes

record response =
  code :: nat
  content :: content

record request =
  Method :: string
  Path :: string
  Body :: string

text \<open>
  What one call of the handler reads from outside: the identifier \<^verbatim>\<open>uuid.New()\<close> gives,
  the clock at the three places the handler reads it (inside \<^verbatim>\<open>time.Since\<close>, for the new
  check time, and for the health status), and the output of the timestamp query, should
  the handler run it.
\<close>

record req_env =
  new_uuid :: string
  now_since :: int
  query_output :: string
  now_checked :: int
  now_status :: int

text \<open>
  \<^verbatim>\<open>Duration.Seconds()\<close> and \<^verbatim>\<open>Duration.Minutes()\<close> of a duration in nanoseconds. The two
  comparisons the handler makes with them, against 10 and against 15, come out in
  \<^verbatim>\<open>float64\<close> as they do on the exact quotients: the nearest durations on either side
  of the threshold are a nanosecond away, far more than the rounding error.
\<close>

definition Seconds :: "int \<Rightarrow> float64" where
  "Seconds d = of_int d / 1000000000"

definition Minutes :: "int \<Rightarrow> float64" where
  "Minutes d = of_int d / (60 * 1000000000)"

text \<open>The branch for \<^verbatim>\<open>POST\<close> (lines 329 to 354).\<close>

definition serve_post :: "lib \<Rightarrow> string \<Rightarrow> string \<Rightarrow> state \<Rightarrow> response \<times> state" where
  "serve_post L uuid body s =
     (case parseInput L body of
        Inl err \<Rightarrow> (\<lparr>code = 400, content = NoBody\<rparr>, s)
      | Inr (geom, sanitized_name, sanitized_type, sanitized_region) \<Rightarrow>
          if nodesLimit s < GetSum L (image_raster s) geom
          then (\<lparr>code = 400, content = Text ''Error: the limit of nodes was exceeded.''\<rparr>, s)
          else
            (let task = \<lparr>Uuid = uuid, SanitizedName = sanitized_name,
                          SanitizedRegionType = sanitized_type,
                          SanitizedRegionData = sanitized_region\<rparr>
             in case try_send (queue s) task of
                  Some q \<Rightarrow>
                    (\<lparr>code = 201, content = Text uuid\<rparr>,
                     s\<lparr>queue := q, progress := (progress s)(uuid \<mapsto> zero_Progress)\<rparr>)
                | None \<Rightarrow> (\<lparr>code = 503, content = NoBody\<rparr>, s)))"

text \<open>The branch for \<^verbatim>\<open>/api\<close> (lines 357 to 381).\<close>

definition serve_state :: "lib \<Rightarrow> req_env \<Rightarrow> state \<Rightarrow> response \<times> state" where
  "serve_state L env s =
     (let l = length (buf (queue s));
          s1 = (if 10 < Seconds (now_since env - lastUpdated_checkedAt s) then
                  (let s2 = s\<lparr>commands := commands s @ [Query_timestamp (exec s) (data s)]\<rparr>
                   in case time_Parse L (query_output env) of
                        Some timestamp \<Rightarrow>
                          s2\<lparr>lastUpdated_timestamp := timestamp,
                             lastUpdated_checkedAt := now_checked env\<rparr>
                      | None \<Rightarrow> s2)
                else s);
          timestamp = lastUpdated_timestamp s1;
          status = (if 15 < Minutes (now_status env - timestamp) then ''warn'' else ''ok'')
      in (\<lparr>code = 200,
           content = StateDoc \<lparr>Status = status, QueueSize = int l, NodesLimit = nodesLimit s,
                                Timestamp_state = time_Format L timestamp\<rparr>\<rparr>, s1))"

text \<open>The branch for one task (lines 391 to 411), \<open>uuid\<close> being the last part of the path.\<close>

definition serve_task :: "string \<Rightarrow> state \<Rightarrow> response" where
  "serve_task uuid s =
     (case progress s uuid of
        Some p \<Rightarrow> \<lparr>code = 200, content = ProgressDoc p\<rparr>
      | None \<Rightarrow>
          (case fs s (Join (filesDir s) uuid) of
             Some f \<Rightarrow> \<lparr>code = 200, content = FileDoc f\<rparr>
           | None \<Rightarrow> \<lparr>code = 404, content = NoBody\<rparr>))"

text \<open>\<^verbatim>\<open>strings.Split(s, "/")\<close>.\<close>

fun Split :: "string \<Rightarrow> string list" where
  "Split [] = [[]]"
| "Split (c # cs) =
     (if c = CHR ''/'' then [] # Split cs
      else (case Split cs of [] \<Rightarrow> [[c]] | p # ps \<Rightarrow> (c # p) # ps))"

definition ServeHTTP :: "lib \<Rightarrow> req_env \<Rightarrow> request \<Rightarrow> state \<Rightarrow> response \<times> state" where
  "ServeHTTP L env r s =
     (if Method r = ''POST'' then serve_post L (new_uuid env) (Body r) s
      else if Path r = ''/api'' \<or> Path r = ''/api/'' then serve_state L env s
      else if Path r = ''/api/nodes.png'' then (\<lparr>code = 200, content = ImageBytes\<rparr>, s)
      else
        (let parts = Split (Path r)
         in if length parts \<noteq> 3 \<or> parts ! 0 \<noteq> [] \<or> parts ! 1 \<noteq> ''api''
            then (\<lparr>code = 404, content = NoBody\<rparr>, s)
            else (serve_task (parts ! 2) s, s)))"

section \<open>Runs of the server\<close>

text \<open>
  The handler and the workers run concurrently, so the branch for \<^verbatim>\<open>POST\<close> is taken in
  the two parts between which other goroutines can act. \<open>post_send\<close> is lines 329 to
  345: validation, the estimate and the send on the queue, \<open>None\<close> when the request is
  rejected or the send falls to the \<^verbatim>\<open>default\<close> case. \<open>post_insert\<close> is lines 346 to 351:
  the registry entry and the response.
\<close>

definition post_send :: "lib \<Rightarrow> string \<Rightarrow> string \<Rightarrow> state \<Rightarrow> (Task \<times> state) option" where
  "post_send L uuid body s =
     (case parseInput L body of
        Inl err \<Rightarrow> None
      | Inr (geom, sanitized_name, sanitized_type, sanitized_region) \<Rightarrow>
          if nodesLimit s < GetSum L (image_raster s) geom then None
          else
            (let task = \<lparr>Uuid = uuid, SanitizedName = sanitized_name,
                          SanitizedRegionType = sanitized_type,
                          SanitizedRegionData = sanitized_region\<rparr>
             in case try_send (queue s) task of
                  Some q \<Rightarrow> Some (task, s\<lparr>queue := q\<rparr>)
                | None \<Rightarrow> None))"

definition post_insert :: "Task \<Rightarrow> state \<Rightarrow> response \<times> state" where
  "post_insert task s =
     (\<lparr>code = 201, content = Text (Uuid task)\<rparr>,
      s\<lparr>progress := (progress s)(Uuid task \<mapsto> zero_Progress)\<rparr>)"

text \<open>
  The running system: the state of the server, the tasks whose handler has sent them on
  the queue (line 345) and has not yet stored their registry entry (line 348), and the
  tasks that a worker has received (line 197) and is not done with.
\<close>

record system =
  server :: state
  sent :: "Task list"
  taken :: "Task list"

text \<open>
  The steps of the system, each one access to the shared state:
  \<^item> \<open>send\<close>: a handler gets through lines 329 to 345 with a task on the queue; the
    identifier \<^verbatim>\<open>uuid.New()\<close> gave it is one that no task in the system carries;
  \<^item> \<open>insert\<close>: that handler stores the registry entry and answers (lines 346 to 351);
  \<^item> \<open>answer\<close>: any other call of the handler, one that is not answered 201: a rejected
    POST changes nothing, a status query changes the freshness cache under its lock, a
    query for a task reads the registry once;
  \<^item> \<open>receive\<close>: a worker receives the oldest waiting task (line 197);
  \<^item> \<open>work\<close>: a worker acts on a task it holds (lines 198 to 207 and \<^verbatim>\<open>runTask\<close>): it
    writes the registry only under the identifier of its task (lines 148, 178, 199) and
    does not touch the queue; files, commands and reports change as they may;
  \<^item> \<open>finish\<close>: a worker is done with its task.
  A panic ends the process; the steps a dead process would take are not left out, which
  only adds runs.
\<close>

inductive step :: "lib \<Rightarrow> system \<Rightarrow> system \<Rightarrow> bool" for L :: lib where
  send: "post_send L uuid body (server c) = Some (task, s1) \<Longrightarrow>
         uuid \<notin> Uuid ` (set (buf (queue (server c))) \<union> set (sent c) \<union> set (taken c)) \<Longrightarrow>
         step L c (c\<lparr>server := s1, sent := sent c @ [task]\<rparr>)"
| insert: "task \<in> set (sent c) \<Longrightarrow> post_insert task (server c) = (resp, s1) \<Longrightarrow>
         step L c (c\<lparr>server := s1, sent := remove1 task (sent c)\<rparr>)"
| answer: "ServeHTTP L env r (server c) = (resp, s1) \<Longrightarrow> code resp \<noteq> 201 \<Longrightarrow>
         step L c (c\<lparr>server := s1\<rparr>)"
| receive: "buf (queue (server c)) = task # rest \<Longrightarrow>
         step L c (c\<lparr>server := (server c)\<lparr>queue := (queue (server c))\<lparr>buf := rest\<rparr>\<rparr>,
                     taken := task # taken c\<rparr>)"
| work: "task \<in> set (taken c) \<Longrightarrow> queue s1 = queue (server c) \<Longrightarrow>
         (\<forall>u. u \<noteq> Uuid task \<longrightarrow> progress s1 u = progress (server c) u) \<Longrightarrow>
         step L c (c\<lparr>server := s1\<rparr>)"
| finish: "task \<in> set (taken c) \<Longrightarrow> step L c (c\<lparr>taken := remove1 task (taken c)\<rparr>)"

text \<open>The system starts from a server that \<^verbatim>\<open>StartWorkers\<close> has set up.\<close>

inductive reachable :: "lib \<Rightarrow> system \<Rightarrow> bool" for L :: lib where
  started: "reachable L \<lparr>server = StartWorkers s, sent = [], taken = []\<rparr>"
| stepped: "reachable L c \<Longrightarrow> step L c c' \<Longrightarrow> reachable L c'"

text \<open>
  The property of a system that every waiting task either still has its handler before
  the registry insert or has a registry entry holding the zero \<^verbatim>\<open>Progress\<close>, and that
  no two tasks waiting or held by a worker share an identifier.
\<close>

definition waiting_registered :: "system \<Rightarrow> bool" where
  "waiting_registered c \<longleftrightarrow>
     (\<forall>t \<in> set (buf (queue (server c))).
        Uuid t \<in> Uuid ` set (sent c) \<or> progress (server c) (Uuid t) = Some zero_Progress)
     \<and> distinct (map Uuid (buf (queue (server c)) @ taken c))"

section \<open>Stand-ins for running the model\<close>

text \<open>
  To run the model on concrete requests the library functions need values. The stand-in
  below reads a request body of the form \<open>type:data\<close>, knows a handful of payloads by
  name, takes the area of a bound as width times height and that of any polygon as one
  half, covers every geometry by one tile per zoom level up to 12 and by 257 tiles at
  zoom 13, and reads the timestamp \<open>t100\<close> as 100 nanoseconds.
\<close>

definition test_geometries :: "string \<Rightarrow> geometry option" where
  "test_geometries d =
     (if d = ''triangle'' then Some (Polygon [[(0, 0), (1, 1), (1, 0), (0, 0)]])
      else if d = ''short'' then Some (Polygon [[(0, 0), (1, 1), (0, 0)]])
      else if d = ''no_rings'' then Some (Polygon [])
      else if d = ''no_polygons'' then Some (MultiPolygon [])
      else if d = ''empty_polygon'' then Some (MultiPolygon [[]])
      else if d = ''empty_rings'' then Some (MultiPolygon [[[], []]])
      else if d = ''point'' then Some (Point (0, 0))
      else None)"

definition test_coords :: "string \<Rightarrow> float64 list" where
  "test_coords d =
     (if d = ''[0,0,1,1]'' then [0, 0, 1, 1]
      else if d = ''[0,0,1,1,1]'' then [0, 0, 1, 1, 1]
      else if d = ''[0,0,0,1]'' then [0, 0, 0, 1]
      else if d = ''[0,0,1]'' then [0, 0, 1]
      else [])"

definition test_area :: "geometry \<Rightarrow> float64" where
  "test_area g =
     (case g of
        Bound p q \<Rightarrow> (fst q - fst p) * (snd q - snd p)
      | Polygon v \<Rightarrow> 1 / 2
      | MultiPolygon v \<Rightarrow> 1 / 2
      | _ \<Rightarrow> 0)"

definition test_bound :: "point list \<Rightarrow> geometry" where
  "test_bound ps =
     (case ps of
        [p, q] \<Rightarrow> Bound (min (fst p) (fst q), min (snd p) (snd q))
                         (max (fst p) (fst q), max (snd p) (snd q))
      | _ \<Rightarrow> Bound (0, 0) (0, 0))"

definition test_cover :: "geometry \<Rightarrow> int \<Rightarrow> tile list" where
  "test_cover g z =
     (if z = 12 then [\<lparr>X = 655, Y = 1582, Z = 12\<rparr>]
      else if z = 13 then map (\<lambda>i. \<lparr>X = 1310, Y = of_nat i, Z = 13\<rparr>) [3000..<3257]
      else [\<lparr>X = 0, Y = 0, Z = word_of_int z\<rparr>])"

definition test_lib :: lib where
  "test_lib =
     \<lparr>decode_input = (\<lambda>body. if CHR '':'' \<in> set body
                          then Some \<lparr>Name = ''a_name'',
                                     RegionType = takeWhile (\<lambda>c. c \<noteq> CHR '':'') body,
                                     RegionData = tl (dropWhile (\<lambda>c. c \<noteq> CHR '':'') body)\<rparr>
                          else None),
      UnmarshalGeometry = test_geometries,
      MarshalJSON = (\<lambda>g. ''geometry''),
      Unmarshal_coords = test_coords,
      format_float = (\<lambda>f. if f = 0 then ''0'' else ''1''),
      Area = test_area,
      MultiPoint_Bound = test_bound,
      tilecover_Geometry = test_cover,
      time_Parse = (\<lambda>s. if s = ''t100'' then Some 100 else None),
      time_Format = (\<lambda>t. if t = 100 then ''t100'' else ''t'')\<rparr>"

text \<open>
  A small raster for running the model: one cell, at (655, 1582), holds the value 3986
  (high byte 15 in the red channel, low byte 146 in the green channel); every other cell
  is zero.
\<close>

definition test_raster :: image where
  "test_raster x y = (if x = 655 \<and> y = 1582 then (0x0F0F, 0x9292) else (0, 0))"

text \<open>
  A server that \<^verbatim>\<open>StartWorkers\<close> has just set up, with the given node limit, the test
  raster, empty directories and times at 0.
\<close>

definition test_server :: "int \<Rightarrow> state" where
  "test_server limit =
     StartWorkers
       \<lparr>progress = Map.empty, queue = make_chan 0, filesDir = ''files'', tmpDir = ''tmp'',
        exec = ''osmx'', data = ''planet.osmx'', image_raster = test_raster, nodesLimit = limit,
        lastUpdated_timestamp = 0, lastUpdated_checkedAt = 0, fs = Map.empty, commands = [],
        reported = [], crashed = False\<rparr>"

text \<open>
  What a call of the handler reads from outside: the identifier drawn, the clock (read at
  \<open>now\<close>, one nanosecond later and two nanoseconds later) and the output of the
  timestamp query.
\<close>

definition test_env :: "string \<Rightarrow> int \<Rightarrow> string \<Rightarrow> req_env" where
  "test_env uuid now out =
     \<lparr>new_uuid = uuid, now_since = now, query_output = out, now_checked = now + 1,
      now_status = now + 2\<rparr>"

text \<open>A task, and a buffer full of 512 waiting tasks with identifiers of their own.\<close>

definition test_task :: "string \<Rightarrow> Task" where
  "test_task uuid =
     \<lparr>Uuid = uuid, SanitizedName = ''a_name'', SanitizedRegionType = ''bbox'',
      SanitizedRegionData = ''[0,0,1,1]''\<rparr>"

definition full_buffer :: "Task list" where
  "full_buffer = map (\<lambda>i. test_task (replicate (Suc i) (CHR ''a''))) [0..<512]"

text \<open>
  A run in which every call succeeds: the tool writes one progress line and leaves an
  extract of 42 bytes.
\<close>

definition test_progress :: Progress where
  "test_progress = zero_Progress\<lparr>Timestamp := ''t100'', CellsTotal := 10, CellsProg := 4\<rparr>"

definition test_run :: run_env where
  "test_run =
     \<lparr>create_ok = True, marshal_task_ok = True, write_region_json_ok = True, start_ok = True,
      lines = [Some test_progress], tool_output = Some (Extract_output 42), wait_ok = True,
      open_ok = True, stat_size = Some 42, rename_ok = True, remove_ok = True,
      elapsed_seconds = 3 / 2, marshal_completion_ok = True, write_completion_ok = True\<rparr>"

text \<open>The server after it has accepted one task, which waits in the queue.\<close>

definition test_waiting :: state where
  "test_waiting =
     (test_server 100000)
       \<lparr>queue := \<lparr>buf = [test_task ''id1''], capacity = 512\<rparr>,
        progress := [''id1'' \<mapsto> zero_Progress]\<rparr>"

text \<open>
  The system in which the handler of that task has sent it and not yet stored its
  registry entry, and the system in which a worker has received the task meanwhile.
\<close>

definition test_sent :: system where
  "test_sent =
     \<lparr>server = (test_server 100000)\<lparr>queue := \<lparr>buf = [test_task ''id1''], capacity = 512\<rparr>\<rparr>,
      sent = [test_task ''id1''], taken = []\<rparr>"

definition test_received :: system where
  "test_received =
     \<lparr>server = test_server 100000, sent = [test_task ''id1''], taken = [test_task ''id1'']\<rparr>"

section \<open>Properties of the density lookup\<close>

lemma wrap64_id: "- (2 ^ 63) \<le> v \<Longrightarrow> v < 2 ^ 63 \<Longrightarrow> wrap64 v = v"
proof -
  assume a: "- (2 ^ 63) \<le> v" "v < 2 ^ 63"
  have "0 \<le> v + 2 ^ 63" using a by simp
  moreover have "v + 2 ^ 63 < 2 ^ 64" using a by simp
  ultimately have "(v + 2 ^ 63) mod 2 ^ 64 = v + 2 ^ 63"
    by (rule mod_pos_pos_trivial)
  then show ?thesis unfolding wrap64_def by simp
qed

lemma pow_le_62: "n \<le> 62 \<Longrightarrow> (2::int) ^ n \<le> 2 ^ 62"
  by (rule power_increasing) simp_all

lemma wrap64_small: "0 \<le> v \<Longrightarrow> v \<le> 2 ^ 62 \<Longrightarrow> wrap64 v = v"
  by (rule wrap64_id) simp_all

lemma shl_two: "0 \<le> n \<Longrightarrow> n \<le> 61 \<Longrightarrow> shl 2 n = 2 ^ nat (n + 1)"
proof -
  assume n: "0 \<le> n" "n \<le> 61"
  have e: "(2::int) * 2 ^ nat n = 2 ^ nat (n + 1)"
    using n by (simp add: nat_add_distrib)
  have "nat (n + 1) \<le> 62" using n by simp
  then have le: "(2::int) ^ nat (n + 1) \<le> 2 ^ 62" by (rule pow_le_62)
  have "wrap64 (2 ^ nat (n + 1)) = 2 ^ nat (n + 1)"
    by (rule wrap64_small) (use le in simp_all)
  then show ?thesis by (simp only: shl_def e)
qed

lemma uint_drop8_bound: "uint (drop_bit 8 (w :: 16 word)) < 2 ^ 8"
proof -
  have "uint (drop_bit 8 w) = uint w div 2 ^ 8"
    by (simp add: drop_bit_eq_div uint_div_distrib)
  moreover have "uint w < 2 ^ 16" using uint_bounded [of w] by simp
  ultimately show ?thesis by simp
qed

lemma raw_value_bound: "0 \<le> raw_value img x y" "raw_value img x y < 65536"
proof -
  have "uint (drop_bit 8 (fst (img x y))) < 2 ^ 8" "uint (drop_bit 8 (snd (img x y))) < 2 ^ 8"
    by (rule uint_drop8_bound)+
  then show "raw_value img x y < 65536" by (simp add: raw_value_def)
  show "0 \<le> raw_value img x y" by (simp add: raw_value_def)
qed

lemma cell_sum_raw: "cell_sum img x y = of_int (raw_value img x y)"
proof -
  obtain r g where rg: "img x y = (r, g)" by (cases "img x y")
  have b: "uint (drop_bit 8 r) < 2 ^ 8" by (rule uint_drop8_bound)
  have "wrap64 (uint (drop_bit 8 r) * 256) = uint (drop_bit 8 r) * 256"
    by (rule wrap64_small) (use b in simp_all)
  then show ?thesis
    by (simp add: cell_sum_def raw_value_def rg float64_of_int_def)
qed

lemma cell_int_raw: "cell_int img x y = raw_value img x y"
proof -
  obtain r g where rg: "img x y = (r, g)" by (cases "img x y")
  have b: "uint (drop_bit 8 r) < 2 ^ 8" by (rule uint_drop8_bound)
  have c: "uint (drop_bit 8 g) < 2 ^ 8" by (rule uint_drop8_bound)
  have 1: "wrap64 (uint (drop_bit 8 r) * 256) = uint (drop_bit 8 r) * 256"
    by (rule wrap64_small) (use b in simp_all)
  have 2: "wrap64 (uint (drop_bit 8 r) * 256 + uint (drop_bit 8 g)) = uint (drop_bit 8 r) * 256 + uint (drop_bit 8 g)"
    by (rule wrap64_small) (use b c in simp_all)
  show ?thesis
    by (simp add: cell_int_def raw_value_def rg 1 2)
qed

lemma inner_loop_sum:
  "inner_loop img ix iy hi acc = acc + (\<Sum>j = iy..<hi. cell_sum img ix j)"
proof (induction img ix iy hi acc rule: inner_loop.induct)
  case (1 img ix iy hi acc)
  show ?case
  proof (cases "iy < hi")
    case True
    have s: "{iy..<hi} = insert iy {iy + 1..<hi}" using True by auto
    have "(\<Sum>j = iy..<hi. cell_sum img ix j) = cell_sum img ix iy + (\<Sum>j = iy + 1..<hi. cell_sum img ix j)"
      by (subst s) simp
    with True 1 show ?thesis by (subst inner_loop.simps) (simp add: add.assoc)
  next
    case False
    then show ?thesis by (subst inner_loop.simps) simp
  qed
qed

lemma outer_loop_sum:
  "outer_loop img ix hi y dz acc =
     acc + (\<Sum>i = ix..<hi. \<Sum>j = wrap64 (y * dz)..<wrap64 (wrap64 (y * dz) + dz). cell_sum img i j)"
proof (induction img ix hi y dz acc rule: outer_loop.induct)
  case (1 img ix hi y dz acc)
  show ?case
  proof (cases "ix < hi")
    case True
    have s: "{ix..<hi} = insert ix {ix + 1..<hi}" using True by auto
    let ?f = "\<lambda>i. \<Sum>j = wrap64 (y * dz)..<wrap64 (wrap64 (y * dz) + dz). cell_sum img i j"
    have "(\<Sum>i = ix..<hi. ?f i) = ?f ix + (\<Sum>i = ix + 1..<hi. ?f i)"
      by (subst s) simp
    with True 1 show ?thesis
      by (subst outer_loop.simps) (simp add: add.assoc inner_loop_sum)
  next
    case False
    then show ?thesis by (subst outer_loop.simps) simp
  qed
qed

lemma int_of_float64_of_int: "int_of_float64 (of_int n) = n"
  by (simp add: int_of_float64_def)

lemma block_bounds:
  assumes "0 \<le> x" "x < 2 ^ 32" "n \<le> 12"
  shows "wrap64 (x * 2 ^ n) = x * 2 ^ n"
    and "wrap64 (x * 2 ^ n + 2 ^ n) = x * 2 ^ n + 2 ^ n"
proof -
  have p: "(2::int) ^ n \<le> 2 ^ 12" using assms(3) by (intro power_increasing) simp_all
  have p0: "(0::int) < 2 ^ n" by simp
  have "x * 2 ^ n \<le> 2 ^ 32 * 2 ^ 12"
    using assms(1,2) p by (intro mult_mono) simp_all
  then have u: "x * 2 ^ n \<le> 2 ^ 44" by simp
  have l: "0 \<le> x * 2 ^ n" using assms(1) by simp
  show "wrap64 (x * 2 ^ n) = x * 2 ^ n"
    by (rule wrap64_small) (use l u in simp_all)
  show "wrap64 (x * 2 ^ n + 2 ^ n) = x * 2 ^ n + 2 ^ n"
    by (rule wrap64_small) (use l u p in simp_all)
qed

lemma GetPixel_coarse:
  assumes "0 \<le> z" "z < 12" "0 \<le> x" "x < 2 ^ 32" "0 \<le> y" "y < 2 ^ 32"
  shows "GetPixel img z x y =
    of_int (\<Sum>i = x * 2 ^ nat (12 - z)..<x * 2 ^ nat (12 - z) + 2 ^ nat (12 - z).
             \<Sum>j = y * 2 ^ nat (12 - z)..<y * 2 ^ nat (12 - z) + 2 ^ nat (12 - z). raw_value img i j)"
proof -
  define n where "n = nat (12 - z)"
  have n12: "n \<le> 12" using assms(1) by (simp add: n_def)
  have "shl 2 (11 - z) = 2 ^ nat (11 - z + 1)"
    by (rule shl_two) (use assms in simp_all)
  then have dz: "shl 2 (11 - z) = 2 ^ n" by (simp add: n_def)
  note bx = block_bounds [OF assms(3,4) n12]
  note by' = block_bounds [OF assms(5,6) n12]
  show ?thesis
    unfolding GetPixel_def n_def [symmetric]
    using assms(2) by (simp add: dz Let_def outer_loop_sum bx by' cell_sum_raw)
qed

lemma GetPixel_reference: "GetPixel img 12 x y = of_int (raw_value img x y)"
  by (simp add: GetPixel_def cell_sum_raw)

lemma GetPixel_fine:
  assumes "12 < z" "z \<le> 43"
  shows "GetPixel img z x y =
    of_int (raw_value img (x div 2 ^ nat (z - 12)) (y div 2 ^ nat (z - 12))) / 2 ^ (2 * nat (z - 12))"
proof -
  define n where "n = nat (z - 12)"
  have n31: "n \<le> 31" using assms by (simp add: n_def)
  have "shl 2 (z - 13) = 2 ^ nat (z - 13 + 1)"
    by (rule shl_two) (use assms in simp_all)
  then have dz: "shl 2 (z - 13) = 2 ^ n" by (simp add: n_def)
  have sq: "(2::int) ^ n * 2 ^ n = 2 ^ (2 * n)"
    by (simp add: power_add [symmetric] mult_2)
  have "2 * n \<le> 62" using n31 by simp
  then have "(2::int) ^ (2 * n) \<le> 2 ^ 62" by (rule pow_le_62)
  then have w: "wrap64 (2 ^ n * 2 ^ n) = 2 ^ (2 * n)"
    unfolding sq by (intro wrap64_small) simp_all
  have fl: "\<lfloor>(of_int k :: rat) / of_int (2 ^ n)\<rfloor> = k div 2 ^ n" for k
    by (rule floor_divide_of_int_eq)
  show ?thesis
    unfolding GetPixel_def n_def [symmetric]
    using assms(1)
    by (simp add: dz Let_def float64_of_int_def fl int_of_float64_of_int cell_int_raw w del: of_int_power)
qed

text \<open>
  The sums of the coarse branch are whole numbers below \<open>2^53\<close>, which \<^verbatim>\<open>float64\<close> holds
  exactly: the accumulator never rounds.
\<close>

lemma block_sum_bound:
  assumes "n \<le> 12"
  shows "0 \<le> (\<Sum>i = a..<a + 2 ^ n. \<Sum>j = b..<b + 2 ^ n. raw_value img i j)"
    and "(\<Sum>i = a..<a + 2 ^ n. \<Sum>j = b..<b + 2 ^ n. raw_value img i j) < 2 ^ 53"
proof -
  have p: "(2::int) ^ n \<le> 2 ^ 12" using assms by (intro power_increasing) simp_all
  have card: "int (card {c..<c + (2::int) ^ n}) = 2 ^ n" for c by simp
  have le: "raw_value img i j \<le> 65535" for i j
    using raw_value_bound(2) [of img i j] by simp
  have inner: "(\<Sum>j = b..<b + 2 ^ n. raw_value img i j) \<le> 2 ^ n * 65535" for i
  proof -
    have "(\<Sum>j = b..<b + 2 ^ n. raw_value img i j) \<le> of_nat (card {b..<b + (2::int) ^ n}) * 65535"
      by (intro sum_bounded_above le)
    then show ?thesis by (simp only: card of_nat_id)
  qed
  have "(\<Sum>i = a..<a + 2 ^ n. \<Sum>j = b..<b + 2 ^ n. raw_value img i j)
      \<le> of_nat (card {a..<a + (2::int) ^ n}) * (2 ^ n * 65535)"
    using inner by (intro sum_bounded_above) simp
  then have "(\<Sum>i = a..<a + 2 ^ n. \<Sum>j = b..<b + 2 ^ n. raw_value img i j) \<le> 2 ^ n * (2 ^ n * 65535)"
    by (simp only: card of_nat_id)
  also have "\<dots> \<le> 2 ^ 12 * (2 ^ 12 * 65535)"
    using p by (intro mult_mono) simp_all
  also have "\<dots> < 2 ^ 53" by simp
  finally show "(\<Sum>i = a..<a + 2 ^ n. \<Sum>j = b..<b + 2 ^ n. raw_value img i j) < 2 ^ 53" .
  show "0 \<le> (\<Sum>i = a..<a + 2 ^ n. \<Sum>j = b..<b + 2 ^ n. raw_value img i j)"
    by (intro sum_nonneg raw_value_bound(1))
qed

text \<open>
  Claim C2. For a zoom level \<open>z\<close> from 0 to 43 and tile coordinates that fit the
  \<^verbatim>\<open>uint32\<close> fields of a map tile: below the reference zoom 12, \<^verbatim>\<open>GetPixel\<close> is the
  sum of the raw reference cells over the block of \<open>2^(12-z)\<close> by \<open>2^(12-z)\<close> cells
  that the coarse cell covers; at zoom 12 it is the raw value of the cell, high byte
  times 256 plus low byte; above, it is the raw value of the cell found by dividing
  both coordinates by \<open>2^(z-12)\<close>, divided by \<open>2^(2*(z-12))\<close>, a fraction in general.
\<close>

theorem GetPixel_density:
  assumes "0 \<le> z" "z \<le> 43" "0 \<le> x" "x < 2 ^ 32" "0 \<le> y" "y < 2 ^ 32"
  shows "(z < 12 \<longrightarrow> GetPixel img z x y =
            of_int (\<Sum>i = x * 2 ^ nat (12 - z)..<x * 2 ^ nat (12 - z) + 2 ^ nat (12 - z).
                     \<Sum>j = y * 2 ^ nat (12 - z)..<y * 2 ^ nat (12 - z) + 2 ^ nat (12 - z).
                       raw_value img i j))
       \<and> (z = 12 \<longrightarrow> GetPixel img z x y = of_int (raw_value img x y))
       \<and> (12 < z \<longrightarrow> GetPixel img z x y =
            of_int (raw_value img (x div 2 ^ nat (z - 12)) (y div 2 ^ nat (z - 12)))
              / 2 ^ (2 * nat (z - 12)))"
proof (intro conjI impI)
  assume "z < 12"
  with assms show "GetPixel img z x y =
      of_int (\<Sum>i = x * 2 ^ nat (12 - z)..<x * 2 ^ nat (12 - z) + 2 ^ nat (12 - z).
               \<Sum>j = y * 2 ^ nat (12 - z)..<y * 2 ^ nat (12 - z) + 2 ^ nat (12 - z).
                 raw_value img i j)"
    by (intro GetPixel_coarse)
next
  assume "z = 12"
  then show "GetPixel img z x y = of_int (raw_value img x y)"
    by (simp add: GetPixel_reference)
next
  assume "12 < z"
  with assms(2) show "GetPixel img z x y =
      of_int (raw_value img (x div 2 ^ nat (z - 12)) (y div 2 ^ nat (z - 12)))
        / 2 ^ (2 * nat (z - 12))"
    by (intro GetPixel_fine)
qed

lemma raw_test: "raw_value test_raster x y = (if x = 655 \<and> y = 1582 then 3986 else 0)"
  by (simp add: raw_value_def test_raster_def drop_bit_eq_div)

text \<open>
  The three branches at work on the test raster: the regression value of the repository's
  test, \<^verbatim>\<open>GetPixel(img, 14, 2620, 6331) == 249.125\<close>, is the first.
\<close>

theorem GetPixel_density_witness:
  "GetPixel test_raster 14 2620 6331 = 1993 / 8
   \<and> GetPixel test_raster 12 655 1582 = 3986
   \<and> GetPixel test_raster 11 327 791 = 3986"
proof -
  have i: "{654..<656::int} = {654, 655}" "{1582..<1584::int} = {1582, 1583}" by auto
  have a: "GetPixel test_raster 14 2620 6331 = 1993 / 8"
    using GetPixel_density [of 14 2620 6331 test_raster] by (simp add: raw_test)
  have b: "GetPixel test_raster 12 655 1582 = 3986"
    using GetPixel_density [of 12 655 1582 test_raster] by (simp add: raw_test)
  have c: "GetPixel test_raster 11 327 791 = 3986"
    using GetPixel_density [of 11 327 791 test_raster] by (simp add: raw_test i)
  from a b c show ?thesis by simp
qed

section \<open>Properties of the region validator\<close>

lemma test_decode:
  "decode_input test_lib ''geojson:short'' = Some \<lparr>Name = ''a_name'', RegionType = ''geojson'', RegionData = ''short''\<rparr>"
  "decode_input test_lib ''geojson:triangle'' = Some \<lparr>Name = ''a_name'', RegionType = ''geojson'', RegionData = ''triangle''\<rparr>"
  "decode_input test_lib ''geojson:empty_rings'' = Some \<lparr>Name = ''a_name'', RegionType = ''geojson'', RegionData = ''empty_rings''\<rparr>"
  "decode_input test_lib ''geojson:point'' = Some \<lparr>Name = ''a_name'', RegionType = ''geojson'', RegionData = ''point''\<rparr>"
  "decode_input test_lib ''bbox:[0,0,1,1]'' = Some \<lparr>Name = ''a_name'', RegionType = ''bbox'', RegionData = ''[0,0,1,1]''\<rparr>"
  "decode_input test_lib ''bbox:[0,0,1,1,1]'' = Some \<lparr>Name = ''a_name'', RegionType = ''bbox'', RegionData = ''[0,0,1,1,1]''\<rparr>"
  "decode_input test_lib ''bbox:[0,0,0,1]'' = Some \<lparr>Name = ''a_name'', RegionType = ''bbox'', RegionData = ''[0,0,0,1]''\<rparr>"
  "decode_input test_lib ''bbox:[0,0,1]'' = Some \<lparr>Name = ''a_name'', RegionType = ''bbox'', RegionData = ''[0,0,1]''\<rparr>"
  by (simp_all add: test_lib_def)

lemma test_lib_sel:
  "UnmarshalGeometry test_lib = test_geometries"
  "MarshalJSON test_lib = (\<lambda>g. ''geometry'')"
  "Unmarshal_coords test_lib = test_coords"
  "format_float test_lib = (\<lambda>f. if f = 0 then ''0'' else ''1'')"
  "Area test_lib = test_area"
  "MultiPoint_Bound test_lib = test_bound"
  "tilecover_Geometry test_lib = test_cover"
  "time_Parse test_lib = (\<lambda>s. if s = ''t100'' then Some 100 else None)"
  "time_Format test_lib = (\<lambda>t. if t = 100 then ''t100'' else ''t'')"
  by (simp_all add: test_lib_def)

lemma ring_check_None: "ring_check v = None \<longleftrightarrow> \<not> list_ex (\<lambda>ring. length ring < 4) v"
  by (induction v) auto

lemma polygon_check_None:
  "polygon_check m = None \<longleftrightarrow>
     \<not> list_ex (\<lambda>polygon. polygon = [] \<or> list_ex (\<lambda>ring. length ring < 4) polygon) m"
proof (induction m)
  case Nil
  show ?case by simp
next
  case (Cons p ps)
  show ?case
  proof (cases "ring_check p")
    case None
    with Cons show ?thesis using ring_check_None [of p] by simp
  next
    case (Some err)
    then show ?thesis using ring_check_None [of p] by simp
  qed
qed

lemma geometry_check_None: "geometry_check geom = None \<longleftrightarrow> \<not> rings_rejected geom"
  by (cases geom) (simp_all add: geometry_check_def ring_check_None polygon_check_None)

text \<open>
  Claim C5. A geojson submission whose parsed geometry is a polygon with no ring or with a
  ring of fewer than 4 coordinates, or a multipolygon with no polygon, with a polygon
  without rings or with a ring of fewer than 4 coordinates, fails validation; one whose
  polygons and ring lists are non-empty and whose rings all have at least 4 coordinates
  passes the checks of its region type, with the geometry serialized again as payload.
\<close>

theorem ring_checks:
  assumes "decode_input L body = Some input"
    and "RegionType input = ''geojson''"
    and "UnmarshalGeometry L (RegionData input) = Some geom"
  shows "(rings_rejected geom \<longrightarrow> (\<exists>err. parseInput L body = Inl err))
       \<and> (\<not> rings_rejected geom \<longrightarrow> region_geometry L input = Inr (geom, MarshalJSON L geom))"
proof (intro conjI impI)
  assume "rings_rejected geom"
  then obtain err where "geometry_check geom = Some err"
    using geometry_check_None [of geom] by (cases "geometry_check geom") auto
  then have "region_geometry L input = Inl err"
    using assms by (simp add: region_geometry_def)
  then show "\<exists>err. parseInput L body = Inl err"
    using assms(1) by (simp add: parseInput_def)
next
  assume "\<not> rings_rejected geom"
  then have "geometry_check geom = None" by (simp add: geometry_check_None)
  then show "region_geometry L input = Inr (geom, MarshalJSON L geom)"
    using assms by (simp add: region_geometry_def)
qed

theorem ring_checks_witness:
  "(\<exists>err. parseInput test_lib ''geojson:short'' = Inl err)
   \<and> (\<exists>err. parseInput test_lib ''geojson:empty_rings'' = Inl err)
   \<and> region_geometry test_lib \<lparr>Name = ''a_name'', RegionType = ''geojson'', RegionData = ''triangle''\<rparr>
       = Inr (Polygon [[(0, 0), (1, 1), (1, 0), (0, 0)]], ''geometry'')"
proof -
  have a: "\<exists>err. parseInput test_lib ''geojson:short'' = Inl err"
    using ring_checks [OF test_decode(1), of "Polygon [[(0, 0), (1, 1), (0, 0)]]"]
    by (simp add: test_lib_sel test_geometries_def)
  have b: "\<exists>err. parseInput test_lib ''geojson:empty_rings'' = Inl err"
    using ring_checks [OF test_decode(3), of "MultiPolygon [[[], []]]"]
    by (simp add: test_lib_sel test_geometries_def)
  have c: "region_geometry test_lib \<lparr>Name = ''a_name'', RegionType = ''geojson'', RegionData = ''triangle''\<rparr>
       = Inr (Polygon [[(0, 0), (1, 1), (1, 0), (0, 0)]], ''geometry'')"
    using ring_checks [OF test_decode(2), of "Polygon [[(0, 0), (1, 1), (1, 0), (0, 0)]]"]
    by (simp add: test_lib_sel test_geometries_def)
  from a b c show ?thesis by simp
qed

text \<open>
  Claim C6. A bbox submission whose payload yields fewer than 4 numbers fails validation.
  With 4 numbers or more, the geometry is the bound of the two points
  \<open>(coords[1], coords[0])\<close> and \<open>(coords[3], coords[2])\<close>, the input order swapped into
  (longitude, latitude), and the sanitized payload is the array of the first 4 numbers;
  these are the geometry and the payload of every bbox submission that validation
  accepts.
\<close>

theorem bbox_region:
  assumes "decode_input L body = Some input"
    and "RegionType input = ''bbox''"
    and "coords = Unmarshal_coords L (RegionData input)"
  shows "(length coords < 4 \<longrightarrow> parseInput L body = Inl ''input does not have >3 coordinates'')
       \<and> (4 \<le> length coords \<longrightarrow>
            region_geometry L input =
              Inr (MultiPoint_Bound L [(coords ! 1, coords ! 0), (coords ! 3, coords ! 2)],
                   ''['' @ format_float L (coords ! 0) @ '','' @ format_float L (coords ! 1) @ '',''
                     @ format_float L (coords ! 2) @ '','' @ format_float L (coords ! 3) @ '']''))
       \<and> (\<forall>geom name rtype sanitized.
             parseInput L body = Inr (geom, name, rtype, sanitized) \<longrightarrow>
               geom = MultiPoint_Bound L [(coords ! 1, coords ! 0), (coords ! 3, coords ! 2)]
               \<and> sanitized = Marshal_coords L (take 4 coords))"
proof -
  have ne: "RegionType input \<noteq> ''geojson''" using assms(2) by simp
  have short: "length coords < 4 \<Longrightarrow>
      region_geometry L input = Inl ''input does not have >3 coordinates''"
    using assms(2,3) by (simp add: region_geometry_def)
  have long: "4 \<le> length coords \<Longrightarrow>
      region_geometry L input =
        Inr (MultiPoint_Bound L [(coords ! 1, coords ! 0), (coords ! 3, coords ! 2)],
             Marshal_coords L (take 4 coords))"
    using assms(2,3) by (simp add: region_geometry_def Let_def)
  have t4: "4 \<le> length coords \<Longrightarrow> take 4 coords = [coords ! 0, coords ! 1, coords ! 2, coords ! 3]"
    by (auto simp add: numeral_eq_Suc Suc_le_length_iff)
  have m: "4 \<le> length coords \<Longrightarrow> Marshal_coords L (take 4 coords) =
      ''['' @ format_float L (coords ! 0) @ '','' @ format_float L (coords ! 1) @ '',''
        @ format_float L (coords ! 2) @ '','' @ format_float L (coords ! 3) @ '']''"
    by (simp add: t4 Marshal_coords_def)
  show ?thesis
  proof (intro conjI impI allI)
    assume "length coords < 4"
    then show "parseInput L body = Inl ''input does not have >3 coordinates''"
      using assms(1) short by (simp add: parseInput_def)
  next
    assume "4 \<le> length coords"
    then show "region_geometry L input =
              Inr (MultiPoint_Bound L [(coords ! 1, coords ! 0), (coords ! 3, coords ! 2)],
                   ''['' @ format_float L (coords ! 0) @ '','' @ format_float L (coords ! 1) @ '',''
                     @ format_float L (coords ! 2) @ '','' @ format_float L (coords ! 3) @ '']'')"
      using long m by simp
  next
    fix geom name rtype sanitized
    assume ok: "parseInput L body = Inr (geom, name, rtype, sanitized)"
    show "geom = MultiPoint_Bound L [(coords ! 1, coords ! 0), (coords ! 3, coords ! 2)]"
      using ok assms(1) short long
      by (cases "length coords < 4") (auto simp add: parseInput_def split: if_splits)
    show "sanitized = Marshal_coords L (take 4 coords)"
      using ok assms(1) short long
      by (cases "length coords < 4") (auto simp add: parseInput_def split: if_splits)
  qed
qed

theorem bbox_region_witness:
  "parseInput test_lib ''bbox:[0,0,1]'' = Inl ''input does not have >3 coordinates''
   \<and> region_geometry test_lib \<lparr>Name = ''a_name'', RegionType = ''bbox'', RegionData = ''[0,0,0,1]''\<rparr>
       = Inr (Bound (0, 0) (1, 0), ''[0,0,0,1]'')
   \<and> parseInput test_lib ''bbox:[0,0,1,1,1]'' = Inr (Bound (0, 0) (1, 1), ''a_name'', ''bbox'', ''[0,0,1,1]'')"
proof -
  have a: "parseInput test_lib ''bbox:[0,0,1]'' = Inl ''input does not have >3 coordinates''"
    using bbox_region [OF test_decode(8), of "[0, 0, 1]"]
    by (simp add: test_lib_sel test_coords_def)
  have b: "region_geometry test_lib \<lparr>Name = ''a_name'', RegionType = ''bbox'', RegionData = ''[0,0,0,1]''\<rparr>
       = Inr (Bound (0, 0) (1, 0), ''[0,0,0,1]'')"
    using bbox_region [OF test_decode(7), of "[0, 0, 0, 1]"]
    by (simp add: test_lib_sel test_coords_def test_bound_def)
  have ok: "parseInput test_lib ''bbox:[0,0,1,1,1]'' = Inr (Bound (0, 0) (1, 1), ''a_name'', ''bbox'', ''[0,0,1,1]'')"
    by (simp add: parseInput_def test_decode region_geometry_def test_lib_sel test_coords_def
        test_bound_def test_area_def Marshal_coords_def)
  from bbox_region [OF test_decode(6), of "[0, 0, 1, 1, 1]"] ok
  have "Bound (0, 0) (1, 1) = MultiPoint_Bound test_lib [(0, 0), (1, 1)]
        \<and> ''[0,0,1,1]'' = Marshal_coords test_lib [0, 0, 1, 1]"
    by (simp add: test_lib_sel(3) test_coords_def)
  with a b ok show ?thesis by simp
qed

text \<open>
  Claim C7. A submission of either region type that passes the checks of its type fails
  validation exactly when the planar area of its geometry is zero.
\<close>

theorem zero_area_rejected:
  assumes "decode_input L body = Some input"
    and "region_geometry L input = Inr (geom, sanitized)"
  shows "((\<exists>err. parseInput L body = Inl err) \<longleftrightarrow> Area L geom = 0)
       \<and> (Area L geom = 0 \<longrightarrow> parseInput L body = Inl ''Input has 0 area'')
       \<and> (Area L geom \<noteq> 0 \<longrightarrow>
            parseInput L body = Inr (geom, Name input, RegionType input, sanitized))"
  using assms by (simp add: parseInput_def)


theorem zero_area_rejected_witness:
  "parseInput test_lib ''bbox:[0,0,0,1]'' = Inl ''Input has 0 area''
   \<and> parseInput test_lib ''geojson:point'' = Inl ''Input has 0 area''
   \<and> parseInput test_lib ''bbox:[0,0,1,1]'' = Inr (Bound (0, 0) (1, 1), ''a_name'', ''bbox'', ''[0,0,1,1]'')
   \<and> parseInput test_lib ''geojson:triangle''
        = Inr (Polygon [[(0, 0), (1, 1), (1, 0), (0, 0)]], ''a_name'', ''geojson'', ''geometry'')"
proof -
  have r1: "region_geometry test_lib \<lparr>Name = ''a_name'', RegionType = ''bbox'', RegionData = ''[0,0,0,1]''\<rparr>
      = Inr (Bound (0, 0) (1, 0), ''[0,0,0,1]'')"
    by (simp add: region_geometry_def test_lib_sel test_coords_def test_bound_def Marshal_coords_def)
  have r2: "region_geometry test_lib \<lparr>Name = ''a_name'', RegionType = ''geojson'', RegionData = ''point''\<rparr>
      = Inr (Point (0, 0), ''geometry'')"
    by (simp add: region_geometry_def test_lib_sel test_geometries_def geometry_check_def)
  have r3: "region_geometry test_lib \<lparr>Name = ''a_name'', RegionType = ''bbox'', RegionData = ''[0,0,1,1]''\<rparr>
      = Inr (Bound (0, 0) (1, 1), ''[0,0,1,1]'')"
    by (simp add: region_geometry_def test_lib_sel test_coords_def test_bound_def Marshal_coords_def)
  have r4: "region_geometry test_lib \<lparr>Name = ''a_name'', RegionType = ''geojson'', RegionData = ''triangle''\<rparr>
      = Inr (Polygon [[(0, 0), (1, 1), (1, 0), (0, 0)]], ''geometry'')"
    by (simp add: region_geometry_def test_lib_sel test_geometries_def geometry_check_def)
  show ?thesis
    using zero_area_rejected [OF test_decode(7) r1] zero_area_rejected [OF test_decode(4) r2]
      zero_area_rejected [OF test_decode(5) r3] zero_area_rejected [OF test_decode(2) r4]
    by (simp add: test_lib_sel test_area_def)
qed
section \<open>Properties of the node-count estimate\<close>

lemma fold_add_sum_list:
  "fold (\<lambda>t acc. acc + f t) xs (a :: float64) = a + sum_list (map f xs)"
  by (induction xs arbitrary: a) (simp_all add: add.assoc)

lemma cover_loop_reached:
  "0 \<le> z \<Longrightarrow> z \<le> 14 \<Longrightarrow>
   cover_loop L geom z covering =
     tilecover_Geometry L geom
       (case find (\<lambda>z. 256 < length (tilecover_Geometry L geom z)) [z..14] of
          Some z' \<Rightarrow> z' | None \<Rightarrow> 14)"
proof (induction L geom z covering rule: cover_loop.induct)
  case (1 L geom z covering)
  let ?c = "tilecover_Geometry L geom z"
  have up: "[z..14] = z # [z + 1..14]"
    using "1.prems" by (simp add: upto_rec1)
  show ?case
  proof (cases "256 < length ?c")
    case True
    then show ?thesis
      using "1.prems" by (subst cover_loop.simps) (simp add: up)
  next
    case False
    show ?thesis
    proof (cases "z = 14")
      case True
      have "cover_loop L geom 15 ?c = ?c"
        by (subst cover_loop.simps) simp
      then show ?thesis
        using False True by (subst cover_loop.simps) simp
    next
      case z: False
      then have "cover_loop L geom (z + 1) ?c =
          tilecover_Geometry L geom
            (case find (\<lambda>z. 256 < length (tilecover_Geometry L geom z)) [z + 1..14] of
               Some z' \<Rightarrow> z' | None \<Rightarrow> 14)"
        using "1.prems" False by (intro "1.IH") simp_all
      then show ?thesis
        using False "1.prems" by (subst cover_loop.simps) (simp add: up)
    qed
  qed
qed

lemma GetSum_eq:
  "GetSum L img geom =
     int_of_float64
       ((\<Sum>t\<leftarrow>tilecover_Geometry L geom (zoom_reached L geom).
           GetPixel img (uint (Z t)) (uint (X t)) (uint (Y t))) * 32)"
proof -
  have "cover_loop L geom 0 [] = tilecover_Geometry L geom (zoom_reached L geom)"
    unfolding zoom_reached_def by (rule cover_loop_reached) simp_all
  then show ?thesis
    by (simp add: GetSum_def Let_def fold_add_sum_list)
qed

text \<open>
  Claim C3. The estimate is the sum of \<^verbatim>\<open>GetPixel\<close> over the tiles of the covering set at
  the zoom level reached (the first level from 0 at which the set has more than 256
  tiles, level 14 otherwise), times 32, truncated to an integer. A POST whose geometry
  validates and whose estimate exceeds the node limit is answered 400 with the message
  that the limit was exceeded, and leaves the queue, the registry and the rest of
  the state as they were.
\<close>

theorem GetSum_estimate:
  "GetSum L img geom =
     int_of_float64
       ((\<Sum>t\<leftarrow>tilecover_Geometry L geom (zoom_reached L geom).
           GetPixel img (uint (Z t)) (uint (X t)) (uint (Y t))) * 32)
   \<and> (\<forall>body name rtype region env p s.
         parseInput L body = Inr (geom, name, rtype, region) \<longrightarrow>
         nodesLimit s < GetSum L (image_raster s) geom \<longrightarrow>
           ServeHTTP L env \<lparr>Method = ''POST'', Path = p, Body = body\<rparr> s =
             (\<lparr>code = 400, content = Text ''Error: the limit of nodes was exceeded.''\<rparr>, s))"
proof (intro conjI allI impI)
  show "GetSum L img geom =
     int_of_float64
       ((\<Sum>t\<leftarrow>tilecover_Geometry L geom (zoom_reached L geom).
           GetPixel img (uint (Z t)) (uint (X t)) (uint (Y t))) * 32)"
    by (rule GetSum_eq)
next
  fix body name rtype region env p and s :: state
  assume "parseInput L body = Inr (geom, name, rtype, region)"
    and "nodesLimit s < GetSum L (image_raster s) geom"
  then show "ServeHTTP L env \<lparr>Method = ''POST'', Path = p, Body = body\<rparr> s =
             (\<lparr>code = 400, content = Text ''Error: the limit of nodes was exceeded.''\<rparr>, s)"
    by (simp add: ServeHTTP_def serve_post_def)
qed

lemma test_zoom: "zoom_reached test_lib g = 13"
  by (simp add: zoom_reached_def test_lib_sel test_cover_def upto.simps)

lemma test_pixel_13:
  "GetPixel test_raster 13 1310 y = (if y div 2 = 1582 then 1993 / 2 else 0)"
  by (simp add: GetPixel_fine raw_test)

lemma test_sum:
  "(\<Sum>t\<leftarrow>test_cover g 13. GetPixel test_raster (uint (Z t)) (uint (X t)) (uint (Y t))) = 1993"
  by (simp add: test_cover_def test_pixel_13 comp_def upt_rec_numeral)

lemma test_parse_bbox:
  "parseInput test_lib ''bbox:[0,0,1,1]'' = Inr (Bound (0, 0) (1, 1), ''a_name'', ''bbox'', ''[0,0,1,1]'')"
  by (simp add: parseInput_def test_decode region_geometry_def test_lib_sel test_coords_def
      test_bound_def test_area_def Marshal_coords_def)

lemma test_server_sel:
  "nodesLimit (test_server limit) = limit"
  "image_raster (test_server limit) = test_raster"
  "queue (test_server limit) = \<lparr>buf = [], capacity = 512\<rparr>"
  "progress (test_server limit) = Map.empty"
  "fs (test_server limit) = Map.empty"
  "filesDir (test_server limit) = ''files''"
  "tmpDir (test_server limit) = ''tmp''"
  "exec (test_server limit) = ''osmx''"
  "data (test_server limit) = ''planet.osmx''"
  "commands (test_server limit) = []"
  "reported (test_server limit) = []"
  "crashed (test_server limit) = False"
  "lastUpdated_timestamp (test_server limit) = 0"
  "lastUpdated_checkedAt (test_server limit) = 0"
  by (simp_all add: test_server_def StartWorkers_def make_chan_def)

theorem GetSum_estimate_witness:
  "GetSum test_lib test_raster (Bound (0, 0) (1, 1)) = 63776
   \<and> ServeHTTP test_lib (test_env ''id1'' 0 []) \<lparr>Method = ''POST'', Path = ''/'', Body = ''bbox:[0,0,1,1]''\<rparr>
         (test_server 1000) =
       (\<lparr>code = 400, content = Text ''Error: the limit of nodes was exceeded.''\<rparr>, test_server 1000)"
proof -
  note t = GetSum_estimate [of test_lib test_raster "Bound (0, 0) (1, 1)"]
  have v: "GetSum test_lib test_raster (Bound (0, 0) (1, 1)) = 63776"
    using t by (simp add: test_zoom test_lib_sel test_sum int_of_float64_def)
  have "nodesLimit (test_server 1000) < GetSum test_lib (image_raster (test_server 1000)) (Bound (0, 0) (1, 1))"
    by (simp add: test_server_sel v)
  with t [THEN conjunct2, rule_format, OF test_parse_bbox, of "test_server 1000"] v
  show ?thesis by simp
qed

section \<open>Properties of the queue\<close>

text \<open>
  Claim C4. The queue \<^verbatim>\<open>StartWorkers\<close> makes has capacity 512. A POST that validates and
  is admitted while the buffer holds as many tasks as its capacity is answered 503, and
  the state is unchanged: the task is not in the queue and the registry has no new
  entry. With room in the buffer the same POST is answered 201 and the task is appended.
  Either way the handler answers without waiting.
\<close>

theorem full_queue_rejected:
  "capacity (queue (StartWorkers s0)) = 512
   \<and> (\<forall>body geom name rtype region env p (s :: state).
         parseInput L body = Inr (geom, name, rtype, region) \<longrightarrow>
         \<not> nodesLimit s < GetSum L (image_raster s) geom \<longrightarrow>
         capacity (queue s) = 512 \<longrightarrow>
           (512 \<le> length (buf (queue s)) \<longrightarrow>
              ServeHTTP L env \<lparr>Method = ''POST'', Path = p, Body = body\<rparr> s =
                (\<lparr>code = 503, content = NoBody\<rparr>, s))
         \<and> (length (buf (queue s)) < 512 \<longrightarrow>
              ServeHTTP L env \<lparr>Method = ''POST'', Path = p, Body = body\<rparr> s =
                (\<lparr>code = 201, content = Text (new_uuid env)\<rparr>,
                 s\<lparr>queue := (queue s)\<lparr>buf := buf (queue s) @
                        [\<lparr>Uuid = new_uuid env, SanitizedName = name,
                          SanitizedRegionType = rtype, SanitizedRegionData = region\<rparr>]\<rparr>,
                   progress := (progress s)(new_uuid env \<mapsto> zero_Progress)\<rparr>)))"
  by (simp add: StartWorkers_def make_chan_def ServeHTTP_def serve_post_def try_send_def)

lemma test_estimate: "GetSum test_lib test_raster g = 63776"
  by (simp add: GetSum_eq test_zoom test_lib_sel test_sum int_of_float64_def)

theorem full_queue_rejected_witness:
  "ServeHTTP test_lib (test_env ''id1'' 0 []) \<lparr>Method = ''POST'', Path = ''/'', Body = ''bbox:[0,0,1,1]''\<rparr>
     ((test_server 100000)\<lparr>queue := \<lparr>buf = full_buffer, capacity = 512\<rparr>\<rparr>) =
   (\<lparr>code = 503, content = NoBody\<rparr>,
    (test_server 100000)\<lparr>queue := \<lparr>buf = full_buffer, capacity = 512\<rparr>\<rparr>)"
  using full_queue_rejected [of "test_server 0" test_lib, THEN conjunct2, rule_format, OF test_parse_bbox,
      of "(test_server 100000)\<lparr>queue := \<lparr>buf = full_buffer, capacity = 512\<rparr>\<rparr>",
      THEN conjunct1]
  by (simp add: test_server_sel test_estimate full_buffer_def)

section \<open>Properties of the freshness cache\<close>

lemma Seconds_gt_10: "10 < Seconds d \<longleftrightarrow> 10000000000 < d"
proof -
  have "10 < Seconds d \<longleftrightarrow> (10000000000 :: rat) < of_int d"
    by (simp add: Seconds_def)
  also have "\<dots> \<longleftrightarrow> of_int 10000000000 < (of_int d :: rat)" by simp
  also have "\<dots> \<longleftrightarrow> 10000000000 < d" by (simp only: of_int_less_iff)
  finally show ?thesis .
qed

lemma Minutes_gt_15: "15 < Minutes d \<longleftrightarrow> 900000000000 < d"
proof -
  have "15 < Minutes d \<longleftrightarrow> (900000000000 :: rat) < of_int d"
    by (simp add: Minutes_def)
  also have "\<dots> \<longleftrightarrow> of_int 900000000000 < (of_int d :: rat)" by simp
  also have "\<dots> \<longleftrightarrow> 900000000000 < d" by (simp only: of_int_less_iff)
  finally show ?thesis .
qed

text \<open>
  Claim C8. On a status query the timestamp query is run exactly when more than 10
  seconds (in nanoseconds) have passed since the last check: then one command is added to
  those run, otherwise the state is unchanged. When its output parses, the cached
  timestamp is the parsed one and the check time is the clock's; when it does not, both
  stay. The status is \<open>ok\<close> when the cached timestamp is at most 15 minutes before the
  clock and \<open>warn\<close> otherwise.
\<close>

theorem freshness_cache:
  assumes "Method r \<noteq> ''POST''"
    and "Path r = ''/api'' \<or> Path r = ''/api/''"
    and "ServeHTTP L env r s = (resp, s')"
  shows "(10000000000 < now_since env - lastUpdated_checkedAt s \<longrightarrow>
            commands s' = commands s @ [Query_timestamp (exec s) (data s)]
            \<and> (case time_Parse L (query_output env) of
                  Some t \<Rightarrow> lastUpdated_timestamp s' = t \<and> lastUpdated_checkedAt s' = now_checked env
                | None \<Rightarrow> lastUpdated_timestamp s' = lastUpdated_timestamp s
                          \<and> lastUpdated_checkedAt s' = lastUpdated_checkedAt s))
       \<and> (\<not> 10000000000 < now_since env - lastUpdated_checkedAt s \<longrightarrow> s' = s)
       \<and> code resp = 200
       \<and> content resp =
            StateDoc \<lparr>Status = (if now_status env - lastUpdated_timestamp s' \<le> 900000000000
                                 then ''ok'' else ''warn''),
                      QueueSize = int (length (buf (queue s))), NodesLimit = nodesLimit s,
                      Timestamp_state = time_Format L (lastUpdated_timestamp s')\<rparr>"
proof -
  have eq: "serve_state L env s = (resp, s')"
    using assms by (auto simp add: ServeHTTP_def)
  show ?thesis
  proof (cases "10000000000 < now_since env - lastUpdated_checkedAt s")
    case True
    show ?thesis
    proof (cases "time_Parse L (query_output env)")
      case None
      with True eq show ?thesis
        by (auto simp add: serve_state_def Let_def Seconds_gt_10 Minutes_gt_15 not_less)
    next
      case (Some t)
      with True eq show ?thesis
        by (auto simp add: serve_state_def Let_def Seconds_gt_10 Minutes_gt_15 not_less)
    qed
  next
    case False
    with eq show ?thesis
      by (auto simp add: serve_state_def Let_def Seconds_gt_10 Minutes_gt_15 not_less)
  qed
qed

lemma test_env_sel:
  "new_uuid (test_env uuid now out) = uuid"
  "now_since (test_env uuid now out) = now"
  "query_output (test_env uuid now out) = out"
  "now_checked (test_env uuid now out) = now + 1"
  "now_status (test_env uuid now out) = now + 2"
  by (simp_all add: test_env_def)

text \<open>
  Twenty seconds after the last check the query runs and its output \<open>t100\<close> is cached;
  a thousand seconds after it an output that does not parse leaves the cache alone and
  the status is \<open>warn\<close>.
\<close>

theorem freshness_cache_witness:
  "lastUpdated_timestamp (snd (ServeHTTP test_lib (test_env [] 20000000000 ''t100'')
      \<lparr>Method = ''GET'', Path = ''/api'', Body = []\<rparr> (test_server 1000))) = 100
   \<and> lastUpdated_checkedAt (snd (ServeHTTP test_lib (test_env [] 20000000000 ''t100'')
      \<lparr>Method = ''GET'', Path = ''/api'', Body = []\<rparr> (test_server 1000))) = 20000000001
   \<and> content (fst (ServeHTTP test_lib (test_env [] 20000000000 ''t100'')
      \<lparr>Method = ''GET'', Path = ''/api'', Body = []\<rparr> (test_server 1000))) =
       StateDoc \<lparr>Status = ''ok'', QueueSize = 0, NodesLimit = 1000, Timestamp_state = ''t100''\<rparr>
   \<and> commands (snd (ServeHTTP test_lib (test_env [] 1000000000000 ''no time'')
      \<lparr>Method = ''GET'', Path = ''/api/'', Body = []\<rparr> (test_server 1000))) =
       [Query_timestamp ''osmx'' ''planet.osmx'']
   \<and> content (fst (ServeHTTP test_lib (test_env [] 1000000000000 ''no time'')
      \<lparr>Method = ''GET'', Path = ''/api/'', Body = []\<rparr> (test_server 1000))) =
       StateDoc \<lparr>Status = ''warn'', QueueSize = 0, NodesLimit = 1000, Timestamp_state = ''t''\<rparr>"
proof -
  define R1 where "R1 = ServeHTTP test_lib (test_env [] 20000000000 ''t100'')
      \<lparr>Method = ''GET'', Path = ''/api'', Body = []\<rparr> (test_server 1000)"
  define R2 where "R2 = ServeHTTP test_lib (test_env [] 1000000000000 ''no time'')
      \<lparr>Method = ''GET'', Path = ''/api/'', Body = []\<rparr> (test_server 1000)"
  have 1: "ServeHTTP test_lib (test_env [] 20000000000 ''t100'')
      \<lparr>Method = ''GET'', Path = ''/api'', Body = []\<rparr> (test_server 1000) = (fst R1, snd R1)"
    by (simp add: R1_def)
  have 2: "ServeHTTP test_lib (test_env [] 1000000000000 ''no time'')
      \<lparr>Method = ''GET'', Path = ''/api/'', Body = []\<rparr> (test_server 1000) = (fst R2, snd R2)"
    by (simp add: R2_def)
  have a: "lastUpdated_timestamp (snd R1) = 100 \<and> lastUpdated_checkedAt (snd R1) = 20000000001
      \<and> content (fst R1) =
        StateDoc \<lparr>Status = ''ok'', QueueSize = 0, NodesLimit = 1000, Timestamp_state = ''t100''\<rparr>"
    using freshness_cache [OF _ _ 1] by (simp add: test_env_sel test_server_sel test_lib_sel)
  have b: "commands (snd R2) = [Query_timestamp ''osmx'' ''planet.osmx'']
      \<and> content (fst R2) =
        StateDoc \<lparr>Status = ''warn'', QueueSize = 0, NodesLimit = 1000, Timestamp_state = ''t''\<rparr>"
    using freshness_cache [OF _ _ 2] by (simp add: test_env_sel test_server_sel test_lib_sel)
  from a b show ?thesis unfolding R1_def R2_def by simp
qed

section \<open>Properties of a run\<close>

lemma slice_brackets: "slice (''['' @ inner @ '']'') 1 (length (''['' @ inner @ '']'') - 1) = inner"
  by (simp add: slice_def)

text \<open>
  Claim C9. When the file can be created, the region description that \<^verbatim>\<open>runTask\<close> writes
  first, at the task's identifier followed by a dot and the region type in the working
  directory, holds the sanitized payload as it is for a region type other than bbox. For
  bbox it holds the payload without its first and last byte: without the brackets
  around the array, which for the payload validation builds leaves the numbers separated
  by commas. The later stages of \<^verbatim>\<open>runTask\<close> start from the state this write leaves.
\<close>

theorem region_file_content:
  assumes "create_ok e"
  shows "(SanitizedRegionType task \<noteq> ''bbox'' \<longrightarrow>
            write_region_file e task s =
              (None, s\<lparr>fs := (fs s)(Join (tmpDir s) (Uuid task @ ''.'' @ SanitizedRegionType task)
                                   \<mapsto> Bytes (SanitizedRegionData task))\<rparr>))
       \<and> (\<forall>inner. SanitizedRegionType task = ''bbox'' \<longrightarrow>
            SanitizedRegionData task = ''['' @ inner @ '']'' \<longrightarrow>
            write_region_file e task s =
              (None, s\<lparr>fs := (fs s)(Join (tmpDir s) (Uuid task @ ''.bbox'') \<mapsto> Bytes inner)\<rparr>))
       \<and> (\<forall>L coords. SanitizedRegionType task = ''bbox'' \<longrightarrow>
            SanitizedRegionData task = Marshal_coords L coords \<longrightarrow>
            write_region_file e task s =
              (None, s\<lparr>fs := (fs s)(Join (tmpDir s) (Uuid task @ ''.bbox'')
                                   \<mapsto> Bytes (join_comma (map (format_float L) coords)))\<rparr>))
       \<and> runTask e s task =
            and_then (write_region_file e task s)
              (\<lambda>s1. and_then (and_then (write_region_json e task s1) (run_extract e task))
                     (finish_task e task))"
proof (intro conjI allI impI)
  assume "SanitizedRegionType task \<noteq> ''bbox''"
  then show "write_region_file e task s =
      (None, s\<lparr>fs := (fs s)(Join (tmpDir s) (Uuid task @ ''.'' @ SanitizedRegionType task)
                           \<mapsto> Bytes (SanitizedRegionData task))\<rparr>)"
    using assms by (simp add: write_region_file_def)
next
  fix inner
  assume "SanitizedRegionType task = ''bbox''" and "SanitizedRegionData task = ''['' @ inner @ '']''"
  then show "write_region_file e task s =
      (None, s\<lparr>fs := (fs s)(Join (tmpDir s) (Uuid task @ ''.bbox'') \<mapsto> Bytes inner)\<rparr>)"
    using assms slice_brackets [of inner] by (simp add: write_region_file_def)
next
  fix L coords
  assume "SanitizedRegionType task = ''bbox''" and "SanitizedRegionData task = Marshal_coords L coords"
  then show "write_region_file e task s =
      (None, s\<lparr>fs := (fs s)(Join (tmpDir s) (Uuid task @ ''.bbox'')
                           \<mapsto> Bytes (join_comma (map (format_float L) coords)))\<rparr>)"
    using assms slice_brackets [of "join_comma (map (format_float L) coords)"]
    by (simp add: write_region_file_def Marshal_coords_def)
next
  show "runTask e s task =
      and_then (write_region_file e task s)
        (\<lambda>s1. and_then (and_then (write_region_json e task s1) (run_extract e task))
               (finish_task e task))"
    by (cases "write_region_file e task s" rule: prod.exhaust [case_names Pair])
       (auto simp add: runTask_def and_then_def split: option.splits)
qed

lemma test_task_sel:
  "Uuid (test_task uuid) = uuid"
  "SanitizedName (test_task uuid) = ''a_name''"
  "SanitizedRegionType (test_task uuid) = ''bbox''"
  "SanitizedRegionData (test_task uuid) = ''[0,0,1,1]''"
  by (simp_all add: test_task_def)

theorem region_file_content_witness:
  "write_region_file test_run (test_task ''id1'') (test_server 1000) =
     (None, (test_server 1000)\<lparr>fs := [Join ''tmp'' ''id1.bbox'' \<mapsto> Bytes ''0,0,1,1'']\<rparr>)
   \<and> write_region_file test_run ((test_task ''id2'')\<lparr>SanitizedRegionType := ''geojson'',
        SanitizedRegionData := ''geometry''\<rparr>) (test_server 1000) =
     (None, (test_server 1000)\<lparr>fs := [Join ''tmp'' ''id2.geojson'' \<mapsto> Bytes ''geometry'']\<rparr>)"
proof -
  have ok: "create_ok test_run" by (simp add: test_run_def)
  have a: "write_region_file test_run (test_task ''id1'') (test_server 1000) =
     (None, (test_server 1000)\<lparr>fs := [Join ''tmp'' ''id1.bbox'' \<mapsto> Bytes ''0,0,1,1'']\<rparr>)"
    using region_file_content [OF ok, of "test_task ''id1''" "test_server 1000",
        THEN conjunct2, THEN conjunct2, THEN conjunct1, rule_format, of test_lib "[0, 0, 1, 1]"]
    by (simp add: test_task_sel test_server_sel test_lib_sel Marshal_coords_def)
  have b: "write_region_file test_run ((test_task ''id2'')\<lparr>SanitizedRegionType := ''geojson'',
        SanitizedRegionData := ''geometry''\<rparr>) (test_server 1000) =
     (None, (test_server 1000)\<lparr>fs := [Join ''tmp'' ''id2.geojson'' \<mapsto> Bytes ''geometry'']\<rparr>)"
    using region_file_content [OF ok, of "(test_task ''id2'')\<lparr>SanitizedRegionType := ''geojson'',
        SanitizedRegionData := ''geometry''\<rparr>" "test_server 1000", THEN conjunct1]
    by (simp add: test_task_sel test_server_sel)
  from a b show ?thesis by simp
qed

section \<open>What a run leaves behind\<close>

lemma and_then_result:
  "and_then r f = (x, s') \<Longrightarrow>
     (\<exists>err. r = (Some err, s') \<and> x = Some err) \<or> (\<exists>s1. r = (None, s1) \<and> f s1 = (x, s'))"
  by (cases r) (auto simp add: and_then_def split: option.splits)

lemma write_region_file_frame:
  assumes "write_region_file e task s = (x, s')"
  shows "progress s' = progress s" and "queue s' = queue s" and "filesDir s' = filesDir s"
    and "tmpDir s' = tmpDir s" and "reported s' = reported s" and "crashed s' = crashed s"
    and "\<And>p. p \<noteq> Join (tmpDir s) (Uuid task @ ''.'' @ SanitizedRegionType task) \<Longrightarrow> fs s' p = fs s p"
    and "x \<notin> {Some StartFailed, Some DecodeFailed, Some WaitFailed}"
  using assms by (auto simp add: write_region_file_def Let_def split: if_splits)

lemma write_region_json_frame:
  assumes "write_region_json e task s = (x, s')"
  shows "progress s' = progress s" and "queue s' = queue s" and "filesDir s' = filesDir s"
    and "tmpDir s' = tmpDir s" and "reported s' = reported s" and "crashed s' = crashed s"
    and "\<And>p. p \<noteq> Join (filesDir s) (Uuid task @ ''_region.json'') \<Longrightarrow> fs s' p = fs s p"
    and "x \<notin> {Some StartFailed, Some DecodeFailed, Some WaitFailed}"
  using assms by (auto simp add: write_region_json_def split: if_splits)

lemma read_lines_frame:
  "read_lines uuid ls reg = (ok, reg') \<Longrightarrow>
     (\<forall>u. u \<noteq> uuid \<longrightarrow> reg' u = reg u) \<and> (reg uuid \<noteq> None \<longrightarrow> reg' uuid \<noteq> None)"
proof (induction uuid ls reg rule: read_lines.induct)
  case (1 uuid reg)
  then show ?case by simp
next
  case (2 uuid ls reg)
  then show ?case by simp
next
  case (3 uuid p ls reg)
  from "3.prems" have "read_lines uuid ls (reg(uuid \<mapsto> p)) = (ok, reg')" by simp
  from "3.IH" [OF this] show ?case by simp
qed

lemma run_extract_frame:
  assumes "run_extract e task s = (x, s')"
  shows "\<And>u. u \<noteq> Uuid task \<Longrightarrow> progress s' u = progress s u"
    and "progress s (Uuid task) \<noteq> None \<Longrightarrow> progress s' (Uuid task) \<noteq> None"
    and "queue s' = queue s" and "filesDir s' = filesDir s"
    and "tmpDir s' = tmpDir s" and "reported s' = reported s" and "crashed s' = crashed s"
    and "\<And>p. p \<noteq> Join (tmpDir s) (Uuid task @ ''.osm.pbf'') \<Longrightarrow> fs s' p = fs s p"
proof -
  obtain ok reg' where r: "read_lines (Uuid task) (lines e) (progress s) = (ok, reg')"
    by (cases "read_lines (Uuid task) (lines e) (progress s)")
  note f = read_lines_frame [OF r]
  show "\<And>u. u \<noteq> Uuid task \<Longrightarrow> progress s' u = progress s u"
    using assms r f by (auto simp add: run_extract_def Let_def split: if_splits)
  show "progress s (Uuid task) \<noteq> None \<Longrightarrow> progress s' (Uuid task) \<noteq> None"
    using assms r f by (auto simp add: run_extract_def Let_def split: if_splits)
  show "queue s' = queue s" "filesDir s' = filesDir s" "tmpDir s' = tmpDir s"
    "reported s' = reported s" "crashed s' = crashed s"
    using assms by (auto simp add: run_extract_def Let_def split: if_splits)
  show "\<And>p. p \<noteq> Join (tmpDir s) (Uuid task @ ''.osm.pbf'') \<Longrightarrow> fs s' p = fs s p"
    using assms by (auto simp add: run_extract_def Let_def split: if_splits option.splits)
qed

lemma finish_task_frame:
  assumes "finish_task e task s = (x, s')"
  shows "\<And>u. u \<noteq> Uuid task \<Longrightarrow> progress s' u = progress s u"
    and "queue s' = queue s" and "reported s' = reported s" and "crashed s' = crashed s"
    and "x \<notin> {Some StartFailed, Some DecodeFailed, Some WaitFailed}"
  using assms by (auto simp add: finish_task_def Let_def split: if_splits option.splits)

lemma runTask_stages:
  assumes "runTask e s task = (x, s')"
  shows "(\<exists>err. x = Some err \<and> write_region_file e task s = (Some err, s'))
       \<or> (\<exists>err sa. x = Some err \<and> write_region_file e task s = (None, sa)
             \<and> write_region_json e task sa = (Some err, s'))
       \<or> (\<exists>err sa sb. x = Some err \<and> write_region_file e task s = (None, sa)
             \<and> write_region_json e task sa = (None, sb) \<and> run_extract e task sb = (Some err, s'))
       \<or> (\<exists>sa sb sc. write_region_file e task s = (None, sa)
             \<and> write_region_json e task sa = (None, sb) \<and> run_extract e task sb = (None, sc)
             \<and> finish_task e task sc = (x, s'))"
proof -
  from assms have "and_then (and_then (and_then (write_region_file e task s)
       (write_region_json e task)) (run_extract e task)) (finish_task e task) = (x, s')"
    by (simp add: runTask_def)
  from and_then_result [OF this] show ?thesis
  proof
    assume "\<exists>err. and_then (and_then (write_region_file e task s) (write_region_json e task))
        (run_extract e task) = (Some err, s') \<and> x = Some err"
    then obtain err where x: "x = Some err"
      and a: "and_then (and_then (write_region_file e task s) (write_region_json e task))
        (run_extract e task) = (Some err, s')" by blast
    from and_then_result [OF a] show ?thesis
    proof
      assume "\<exists>err'. and_then (write_region_file e task s) (write_region_json e task) = (Some err', s')
          \<and> Some err = Some err'"
      then have b: "and_then (write_region_file e task s) (write_region_json e task) = (Some err, s')"
        by auto
      from and_then_result [OF b] x show ?thesis by auto
    next
      assume "\<exists>s1. and_then (write_region_file e task s) (write_region_json e task) = (None, s1)
          \<and> run_extract e task s1 = (Some err, s')"
      then obtain sb where b: "and_then (write_region_file e task s) (write_region_json e task) = (None, sb)"
        and c: "run_extract e task sb = (Some err, s')" by blast
      from and_then_result [OF b] c x show ?thesis by auto
    qed
  next
    assume "\<exists>s1. and_then (and_then (write_region_file e task s) (write_region_json e task))
        (run_extract e task) = (None, s1) \<and> finish_task e task s1 = (x, s')"
    then obtain sc where a: "and_then (and_then (write_region_file e task s) (write_region_json e task))
        (run_extract e task) = (None, sc)" and d: "finish_task e task sc = (x, s')" by blast
    from and_then_result [OF a] obtain sb
      where b: "and_then (write_region_file e task s) (write_region_json e task) = (None, sb)"
        and c: "run_extract e task sb = (None, sc)" by auto
    from and_then_result [OF b] obtain sa
      where "write_region_file e task s = (None, sa)" "write_region_json e task sa = (None, sb)"
      by auto
    with c d show ?thesis by blast
  qed
qed

lemma runTask_frame:
  assumes "runTask e s task = (x, s')"
  shows "queue s' = queue s" and "reported s' = reported s" and "crashed s' = crashed s"
    and "\<And>u. u \<noteq> Uuid task \<Longrightarrow> progress s' u = progress s u"
proof -
  from runTask_stages [OF assms]
  have "queue s' = queue s \<and> reported s' = reported s \<and> crashed s' = crashed s
      \<and> (\<forall>u. u \<noteq> Uuid task \<longrightarrow> progress s' u = progress s u)"
  proof (elim disjE exE conjE)
    fix err assume "write_region_file e task s = (Some err, s')"
    from write_region_file_frame [OF this] show ?thesis by simp
  next
    fix err sa
    assume a: "write_region_file e task s = (None, sa)" and b: "write_region_json e task sa = (Some err, s')"
    from write_region_file_frame [OF a] write_region_json_frame [OF b] show ?thesis by simp
  next
    fix err sa sb
    assume a: "write_region_file e task s = (None, sa)" and b: "write_region_json e task sa = (None, sb)"
      and c: "run_extract e task sb = (Some err, s')"
    from write_region_file_frame(1,2,5,6) [OF a] write_region_json_frame(1,2,5,6) [OF b]
      run_extract_frame(1,3,6,7) [OF c]
    show ?thesis by simp
  next
    fix sa sb sc
    assume a: "write_region_file e task s = (None, sa)" and b: "write_region_json e task sa = (None, sb)"
      and c: "run_extract e task sb = (None, sc)" and d: "finish_task e task sc = (x, s')"
    from write_region_file_frame(1,2,5,6) [OF a] write_region_json_frame(1,2,5,6) [OF b]
      run_extract_frame(1,3,6,7) [OF c] finish_task_frame(1,2,3,4) [OF d]
    show ?thesis by simp
  qed
  then show "queue s' = queue s" and "reported s' = reported s" and "crashed s' = crashed s"
    and "\<And>u. u \<noteq> Uuid task \<Longrightarrow> progress s' u = progress s u"
    by simp_all
qed

lemma runTask_failed:
  assumes "runTask e s task = (Some err, s')"
    and "err \<in> {StartFailed, DecodeFailed, WaitFailed}"
  shows "progress s (Uuid task) \<noteq> None \<Longrightarrow> progress s' (Uuid task) \<noteq> None"
    and "fs s' (Join (filesDir s) (Uuid task)) = fs s (Join (filesDir s) (Uuid task))"
proof -
  from runTask_stages [OF assms(1)] assms(2)
  obtain sa sb where a: "write_region_file e task s = (None, sa)"
    and b: "write_region_json e task sa = (None, sb)"
    and c: "run_extract e task sb = (Some err, s')"
  proof (elim disjE exE conjE)
    fix err' assume "Some err = Some err'" "write_region_file e task s = (Some err', s')"
    with write_region_file_frame(8) [OF this(2)] assms(2) show ?thesis by auto
  next
    fix err' sa assume "Some err = Some err'" "write_region_json e task sa = (Some err', s')"
    with write_region_json_frame(8) [OF this(2)] assms(2) show ?thesis by auto
  next
    fix err' sa sb
    assume "Some err = Some err'" "write_region_file e task s = (None, sa)"
      "write_region_json e task sa = (None, sb)" "run_extract e task sb = (Some err', s')"
    with that show ?thesis by auto
  next
    fix sa sb sc assume "finish_task e task sc = (Some err, s')"
    with finish_task_frame(5) [OF this] assms(2) show ?thesis by auto
  qed
  note fa = write_region_file_frame [OF a]
  note fb = write_region_json_frame [OF b]
  note fc = run_extract_frame [OF c]
  show "progress s (Uuid task) \<noteq> None \<Longrightarrow> progress s' (Uuid task) \<noteq> None"
    using fa(1) fb(1) fc(2) by simp
  have "fs s' (Join (filesDir s) (Uuid task)) = fs sb (Join (filesDir s) (Uuid task))"
    using fa(3,4) fb(3,4) by (intro fc(8)) (simp add: Join_def)
  also have "\<dots> = fs sa (Join (filesDir s) (Uuid task))"
    using fa(3,4) by (intro fb(7)) (simp add: Join_def)
  also have "\<dots> = fs s (Join (filesDir s) (Uuid task))"
    by (intro fa(7)) (simp add: Join_def)
  finally show "fs s' (Join (filesDir s) (Uuid task)) = fs s (Join (filesDir s) (Uuid task))" .
qed

section \<open>A failed run\<close>

text \<open>
  Claim C1, as the code has it. When a run fails because the tool does not start, writes
  a line that does not decode or exits with an error, the worker reports the error, and
  the file named by the identifier in the files directory is what it was before the run:
  no completion record is written. The registry, however, still holds an entry for the
  task: \<^verbatim>\<open>runTask\<close> deletes the entry at line 178, which only a run that gets through all
  earlier steps reaches, and \<^verbatim>\<open>worker\<close> does not delete it either.
\<close>

theorem failed_run_keeps_registry_entry:
  assumes "dequeue s = Some (task, s1)"
    and "runTask e s1 task = (Some err, s2)"
    and "err \<in> {StartFailed, DecodeFailed, WaitFailed}"
  shows "\<exists>s'. worker e s = Some s'
           \<and> reported s' = reported s @ [err]
           \<and> fs s' (Join (filesDir s) (Uuid task)) = fs s (Join (filesDir s) (Uuid task))
           \<and> progress s' (Uuid task) \<noteq> None"
proof -
  from assms(1) have s1: "progress s1 (Uuid task) \<noteq> None" "fs s1 = fs s" "filesDir s1 = filesDir s"
    "reported s1 = reported s"
    by (auto simp add: dequeue_def split: list.splits)
  have w: "worker e s = Some (s2\<lparr>reported := reported s2 @ [err]\<rparr>)"
    using assms by (auto simp add: worker_def)
  have "progress s2 (Uuid task) \<noteq> None"
    using runTask_failed(1) [OF assms(2,3)] s1(1) by simp
  moreover have "fs s2 (Join (filesDir s) (Uuid task)) = fs s (Join (filesDir s) (Uuid task))"
    using runTask_failed(2) [OF assms(2,3)] s1(2,3) by simp
  moreover have "reported s2 = reported s"
    using runTask_frame(2) [OF assms(2)] s1(4) by simp
  ultimately show ?thesis using w by simp
qed

lemma test_waiting_sel:
  "queue test_waiting = \<lparr>buf = [test_task ''id1''], capacity = 512\<rparr>"
  "progress test_waiting = [''id1'' \<mapsto> zero_Progress]"
  "fs test_waiting = Map.empty"
  "filesDir test_waiting = ''files''"
  "tmpDir test_waiting = ''tmp''"
  "exec test_waiting = ''osmx''"
  "data test_waiting = ''planet.osmx''"
  "commands test_waiting = []"
  "reported test_waiting = []"
  "crashed test_waiting = False"
  "nodesLimit test_waiting = 100000"
  by (simp_all add: test_waiting_def test_server_sel)

lemma test_dequeue:
  "dequeue test_waiting = Some (test_task ''id1'', test_waiting\<lparr>queue := \<lparr>buf = [], capacity = 512\<rparr>\<rparr>)"
  by (simp add: dequeue_def test_waiting_sel test_task_sel)

lemma test_failed_run:
  "fst (runTask (test_run\<lparr>wait_ok := False\<rparr>)
     (test_waiting\<lparr>queue := \<lparr>buf = [], capacity = 512\<rparr>\<rparr>) (test_task ''id1'')) = Some WaitFailed"
  "progress (snd (runTask (test_run\<lparr>wait_ok := False\<rparr>)
     (test_waiting\<lparr>queue := \<lparr>buf = [], capacity = 512\<rparr>\<rparr>) (test_task ''id1''))) ''id1'' = Some test_progress"
  by (simp_all add: runTask_def and_then_def write_region_file_def write_region_json_def
      run_extract_def Let_def test_run_def test_task_sel test_waiting_sel)

text \<open>
  A run whose tool exits with an error after one progress line: the worker has handled
  the failure, and a query for the task is still answered with that line's progress.
\<close>

theorem failed_run_keeps_registry_entry_witness:
  "\<exists>s'. worker (test_run\<lparr>wait_ok := False\<rparr>) test_waiting = Some s'
     \<and> reported s' = [WaitFailed]
     \<and> fs s' (Join ''files'' ''id1'') = None
     \<and> serve_task ''id1'' s' = \<lparr>code = 200, content = ProgressDoc test_progress\<rparr>"
proof -
  let ?e = "test_run\<lparr>wait_ok := False\<rparr>"
  let ?s1 = "test_waiting\<lparr>queue := \<lparr>buf = [], capacity = 512\<rparr>\<rparr>"
  obtain x s2 where r: "runTask ?e ?s1 (test_task ''id1'') = (x, s2)"
    by (cases "runTask ?e ?s1 (test_task ''id1'')")
  with test_failed_run have x: "x = Some WaitFailed" and p: "progress s2 ''id1'' = Some test_progress"
    by simp_all
  from failed_run_keeps_registry_entry [OF test_dequeue r [unfolded x]]
  obtain s' where w: "worker ?e test_waiting = Some s'"
    and "reported s' = [WaitFailed]"
    and "fs s' (Join ''files'' ''id1'') = None"
    by (auto simp add: test_waiting_sel test_task_sel)
  moreover have "worker ?e test_waiting = Some (s2\<lparr>reported := reported s2 @ [WaitFailed]\<rparr>)"
    by (simp add: worker_def test_dequeue r x)
  with w p have "serve_task ''id1'' s' = \<lparr>code = 200, content = ProgressDoc test_progress\<rparr>"
    by (auto simp add: serve_task_def)
  ultimately show ?thesis by blast
qed

section \<open>Waiting tasks and the registry\<close>

lemma post_send_result:
  assumes "post_send L uuid body s = Some (task, s1)"
  shows "Uuid task = uuid"
    and "s1 = s\<lparr>queue := (queue s)\<lparr>buf := buf (queue s) @ [task]\<rparr>\<rparr>"
    and "length (buf (queue s)) < capacity (queue s)"
  using assms
  by (auto simp add: post_send_def try_send_def Let_def split: sum.splits if_splits prod.splits)

lemma serve_post_sent:
  "post_send L uuid body s = Some (task, s1) \<Longrightarrow> serve_post L uuid body s = post_insert task s1"
  by (auto simp add: post_send_def serve_post_def post_insert_def try_send_def Let_def
      split: sum.splits if_splits prod.splits)

lemma serve_post_rejected:
  "post_send L uuid body s = None \<Longrightarrow>
     snd (serve_post L uuid body s) = s \<and> code (fst (serve_post L uuid body s)) \<noteq> 201"
  by (auto simp add: post_send_def serve_post_def try_send_def Let_def
      split: sum.splits if_splits prod.splits)

lemma ServeHTTP_answer_frame:
  assumes "ServeHTTP L env r s = (resp, s')" and "code resp \<noteq> 201"
  shows "queue s' = queue s" and "progress s' = progress s"
proof -
  have post: "queue s' = queue s \<and> progress s' = progress s"
    if "serve_post L (new_uuid env) (Body r) s = (resp, s')"
  proof (cases "post_send L (new_uuid env) (Body r) s")
    case None
    from serve_post_rejected [OF this] that show ?thesis by simp
  next
    case (Some a)
    then obtain task s1 where "post_send L (new_uuid env) (Body r) s = Some (task, s1)"
      by (cases a) simp
    from serve_post_sent [OF this] that assms(2) show ?thesis
      by (simp add: post_insert_def)
  qed
  have state: "queue s' = queue s \<and> progress s' = progress s"
    if "serve_state L env s = (resp, s')"
    using that by (auto simp add: serve_state_def Let_def split: if_splits option.splits)
  from assms(1) post state have "queue s' = queue s \<and> progress s' = progress s"
    by (auto simp add: ServeHTTP_def Let_def split: if_splits)
  then show "queue s' = queue s" and "progress s' = progress s" by simp_all
qed

lemma waiting_registered_started:
  "waiting_registered \<lparr>server = StartWorkers s, sent = [], taken = []\<rparr>"
  by (simp add: waiting_registered_def StartWorkers_def make_chan_def)

lemma waiting_registered_step:
  assumes "step L c c'" and "waiting_registered c"
  shows "waiting_registered c'"
  using assms
proof (cases rule: step.cases)
  case (send uuid body task s1)
  note r = post_send_result [OF send(2)]
  from assms(2) send(3) r(1) show ?thesis
    unfolding send(1) waiting_registered_def
    by (subst r(2), subst r(2), subst r(2)) (auto simp add: image_iff)
next
  case (insert task resp s1)
  from insert(3) have s1: "s1 = (server c)\<lparr>progress := (progress (server c))(Uuid task \<mapsto> zero_Progress)\<rparr>"
    by (simp add: post_insert_def)
  have "Uuid t \<in> Uuid ` set (remove1 task (sent c)) \<or> progress s1 (Uuid t) = Some zero_Progress"
    if t: "t \<in> set (buf (queue (server c)))" for t
  proof (cases "Uuid t = Uuid task")
    case True
    then show ?thesis by (simp add: s1)
  next
    case False
    from assms(2) t have "Uuid t \<in> Uuid ` set (sent c) \<or> progress (server c) (Uuid t) = Some zero_Progress"
      by (simp add: waiting_registered_def)
    then show ?thesis
    proof
      assume "Uuid t \<in> Uuid ` set (sent c)"
      then obtain t' where t': "t' \<in> set (sent c)" "Uuid t' = Uuid t" by auto
      with False have "t' \<noteq> task" by auto
      with t'(1) have "t' \<in> set (remove1 task (sent c))" by simp
      with t'(2) show ?thesis by (metis imageI)
    next
      assume "progress (server c) (Uuid t) = Some zero_Progress"
      with False show ?thesis by (simp add: s1)
    qed
  qed
  with assms(2) show ?thesis
    unfolding insert(1) waiting_registered_def by (simp add: s1)
next
  case (answer env r resp s1)
  from ServeHTTP_answer_frame [OF answer(2,3)] assms(2) show ?thesis
    unfolding answer(1) waiting_registered_def by simp
next
  case (receive task rest)
  from assms(2) show ?thesis
    unfolding receive(1) waiting_registered_def by (auto simp add: receive(2))
next
  case (work task s1)
  have "Uuid t \<in> Uuid ` set (sent c) \<or> progress s1 (Uuid t) = Some zero_Progress"
    if t: "t \<in> set (buf (queue (server c)))" for t
  proof -
    from assms(2) have "distinct (map Uuid (buf (queue (server c)) @ taken c))"
      by (simp add: waiting_registered_def)
    with t work(2) have "Uuid t \<noteq> Uuid task" by (auto simp add: image_iff)
    with work(4) have "progress s1 (Uuid t) = progress (server c) (Uuid t)" by simp
    with assms(2) t show ?thesis by (simp add: waiting_registered_def)
  qed
  with assms(2) work(3) show ?thesis
    unfolding work(1) waiting_registered_def by simp
next
  case (finish task)
  from assms(2) have d: "distinct (map Uuid (buf (queue (server c)) @ taken c))"
    by (simp add: waiting_registered_def)
  then have "distinct (map Uuid (buf (queue (server c)) @ remove1 task (taken c)))"
    by (auto simp add: distinct_map distinct_remove1 inj_on_def dest: notin_set_remove1)
  with assms(2) show ?thesis
    unfolding finish(1) waiting_registered_def by simp
qed

lemma waiting_registered_reachable: "reachable L c \<Longrightarrow> waiting_registered c"
  by (induction rule: reachable.induct)
     (auto intro: waiting_registered_started waiting_registered_step)

text \<open>
  A whole call of the handler and a whole turn of a worker are runs of the system: what
  they reach from a reachable system is reachable.
\<close>

lemma reachable_ServeHTTP:
  assumes "reachable L c"
    and "new_uuid env \<notin> Uuid ` (set (buf (queue (server c))) \<union> set (sent c) \<union> set (taken c))"
    and "ServeHTTP L env r (server c) = (resp, s')"
  shows "reachable L (c\<lparr>server := s'\<rparr>)"
proof (cases "code resp = 201")
  case False
  with assms(3) have "step L c (c\<lparr>server := s'\<rparr>)" by (rule step.answer)
  with assms(1) show ?thesis by (rule reachable.stepped)
next
  case True
  with assms(3) have sp: "serve_post L (new_uuid env) (Body r) (server c) = (resp, s')"
    by (auto simp add: ServeHTTP_def serve_state_def serve_task_def Let_def
        split: if_splits option.splits)
  obtain task s1 where ps: "post_send L (new_uuid env) (Body r) (server c) = Some (task, s1)"
    using serve_post_rejected [of L "new_uuid env" "Body r" "server c"] sp True
    by (cases "post_send L (new_uuid env) (Body r) (server c)") auto
  from serve_post_sent [OF ps] sp have pi: "post_insert task s1 = (resp, s')" by simp
  let ?c1 = "c\<lparr>server := s1, sent := sent c @ [task]\<rparr>"
  from ps assms(2) have "step L c ?c1" by (rule step.send)
  with assms(1) have r1: "reachable L ?c1" by (rule reachable.stepped)
  have "step L ?c1 (?c1\<lparr>server := s', sent := remove1 task (sent ?c1)\<rparr>)"
    by (rule step.insert [of task _ resp]) (simp_all add: pi)
  with r1 have r2: "reachable L (?c1\<lparr>server := s', sent := remove1 task (sent ?c1)\<rparr>)"
    by (rule reachable.stepped)
  from post_send_result(1) [OF ps] assms(2) have "task \<notin> set (sent c)"
    by (metis UnCI imageI)
  then have "remove1 task (sent c @ [task]) = sent c"
    by (simp add: remove1_append)
  then have "?c1\<lparr>server := s', sent := remove1 task (sent ?c1)\<rparr> = c\<lparr>server := s'\<rparr>" by simp
  with r2 show ?thesis by simp
qed

lemma reachable_worker:
  assumes "reachable L c" and "worker e (server c) = Some s'"
  shows "reachable L (c\<lparr>server := s'\<rparr>)"
proof -
  from assms(2) obtain task s1 where d: "dequeue (server c) = Some (task, s1)"
    by (cases "dequeue (server c)") (auto simp add: worker_def)
  then obtain rest where b: "buf (queue (server c)) = task # rest"
    and s1: "s1 = (server c)\<lparr>queue := (queue (server c))\<lparr>buf := rest\<rparr>,
                              progress := (progress (server c))(Uuid task \<mapsto> zero_Progress)\<rparr>"
    by (auto simp add: dequeue_def split: list.splits)
  obtain x s2 where r: "runTask e s1 task = (x, s2)" by (cases "runTask e s1 task")
  note f = runTask_frame [OF r]
  from assms(2) d r have q: "queue s' = queue s2" and p: "progress s' = progress s2"
    by (auto simp add: worker_def split: option.splits run_error.splits)
  let ?s0 = "(server c)\<lparr>queue := (queue (server c))\<lparr>buf := rest\<rparr>\<rparr>"
  let ?c1 = "c\<lparr>server := ?s0, taken := task # taken c\<rparr>"
  from b have "step L c ?c1" by (rule step.receive)
  with assms(1) have r1: "reachable L ?c1" by (rule reachable.stepped)
  have "step L ?c1 (?c1\<lparr>server := s'\<rparr>)"
  proof (rule step.work [of task])
    show "task \<in> set (taken ?c1)" by simp
    show "queue s' = queue (server ?c1)" using q f(1) s1 by simp
    show "\<forall>u. u \<noteq> Uuid task \<longrightarrow> progress s' u = progress (server ?c1) u"
      using p f(4) s1 by simp
  qed
  with r1 have r2: "reachable L (?c1\<lparr>server := s'\<rparr>)" by (rule reachable.stepped)
  have "step L (?c1\<lparr>server := s'\<rparr>) (?c1\<lparr>server := s'\<rparr>\<lparr>taken := remove1 task (taken (?c1\<lparr>server := s'\<rparr>))\<rparr>)"
    by (rule step.finish) simp
  with r2 have "reachable L (?c1\<lparr>server := s'\<rparr>\<lparr>taken := remove1 task (taken (?c1\<lparr>server := s'\<rparr>))\<rparr>)"
    by (rule reachable.stepped)
  then show ?thesis by simp
qed

lemma Split_no_slash: "CHR ''/'' \<notin> set u \<Longrightarrow> Split u = [u]"
  by (induction u) auto

lemma ServeHTTP_task:
  assumes "CHR ''/'' \<notin> set u" "u \<noteq> []" "u \<noteq> ''nodes.png''"
  shows "ServeHTTP L env \<lparr>Method = ''GET'', Path = ''/api/'' @ u, Body = b\<rparr> s = (serve_task u s, s)"
  using assms by (simp add: ServeHTTP_def Split_no_slash)

text \<open>The capacity of the queue is 512 in every system the server reaches.\<close>

lemma capacity_reachable: "reachable L c \<Longrightarrow> capacity (queue (server c)) = 512"
proof (induction rule: reachable.induct)
  case (started s)
  show ?case by (simp add: StartWorkers_def make_chan_def)
next
  case (stepped c c')
  from stepped.hyps(2) stepped.IH show ?case
  proof (cases rule: step.cases)
    case (send uuid body task s1)
    with post_send_result(2) [OF send(2)] stepped.IH show ?thesis by simp
  next
    case (insert task resp s1)
    with stepped.IH show ?thesis by (auto simp add: post_insert_def)
  next
    case (answer env r resp s1)
    with ServeHTTP_answer_frame(1) [OF answer(2,3)] stepped.IH show ?thesis by simp
  qed simp_all
qed

text \<open>
  Claim C10, as the code has it. A POST that validates, is admitted and finds room in the
  buffer first sends its task on the queue and then stores the zero \<^verbatim>\<open>Progress\<close> under the
  new identifier and answers 201; every POST answered 201 has done both. In every
  system the server reaches, each waiting task whose handler has stored the entry has
  it, holding the zero \<^verbatim>\<open>Progress\<close>: a GET for \<open>/api/<id>\<close> of such a task is answered 200
  with the all-zero document and not 404. The document is the one the same query gets
  right after a worker has taken the task from the queue and stored its own entry. (The
  identifier is one that the handler routes to the task branch: it has no slash, is not
  empty and is not \<open>nodes.png\<close>.)
\<close>

theorem waiting_task_has_zero_progress:
  "(\<forall>body geom name rtype region p.
      parseInput L body = Inr (geom, name, rtype, region) \<longrightarrow>
      \<not> nodesLimit s < GetSum L (image_raster s) geom \<longrightarrow>
      length (buf (queue s)) < capacity (queue s) \<longrightarrow>
        (\<exists>task s1.
           Uuid task = new_uuid env
           \<and> post_send L (new_uuid env) body s = Some (task, s1)
           \<and> buf (queue s1) = buf (queue s) @ [task]
           \<and> progress s1 = progress s
           \<and> ServeHTTP L env \<lparr>Method = ''POST'', Path = p, Body = body\<rparr> s = post_insert task s1
           \<and> post_insert task s1 =
               (\<lparr>code = 201, content = Text (new_uuid env)\<rparr>,
                s1\<lparr>progress := (progress s)(new_uuid env \<mapsto> zero_Progress)\<rparr>)))
   \<and> (\<forall>body p resp s'.
        ServeHTTP L env \<lparr>Method = ''POST'', Path = p, Body = body\<rparr> s = (resp, s') \<longrightarrow>
        code resp = 201 \<longrightarrow>
          (\<exists>task s1. post_send L (new_uuid env) body s = Some (task, s1)
             \<and> post_insert task s1 = (resp, s')))
   \<and> (\<forall>c. reachable L c \<longrightarrow>
        (\<forall>t \<in> set (buf (queue (server c))).
           Uuid t \<notin> Uuid ` set (sent c) \<longrightarrow>
           CHR ''/'' \<notin> set (Uuid t) \<longrightarrow> Uuid t \<noteq> [] \<longrightarrow> Uuid t \<noteq> ''nodes.png'' \<longrightarrow>
             (\<forall>env' b. ServeHTTP L env' \<lparr>Method = ''GET'', Path = ''/api/'' @ Uuid t, Body = b\<rparr>
                          (server c) =
                (\<lparr>code = 200, content = ProgressDoc zero_Progress\<rparr>, server c))))
   \<and> (\<forall>task s1. dequeue s = Some (task, s1) \<longrightarrow>
        serve_task (Uuid task) s1 = \<lparr>code = 200, content = ProgressDoc zero_Progress\<rparr>)"
proof (intro conjI allI impI ballI)
  fix body geom name rtype region p
  assume ok: "parseInput L body = Inr (geom, name, rtype, region)"
    and adm: "\<not> nodesLimit s < GetSum L (image_raster s) geom"
    and room: "length (buf (queue s)) < capacity (queue s)"
  let ?task = "\<lparr>Uuid = new_uuid env, SanitizedName = name, SanitizedRegionType = rtype,
                 SanitizedRegionData = region\<rparr>"
  let ?s1 = "s\<lparr>queue := (queue s)\<lparr>buf := buf (queue s) @ [?task]\<rparr>\<rparr>"
  have ps: "post_send L (new_uuid env) body s = Some (?task, ?s1)"
    using ok adm room by (simp add: post_send_def try_send_def Let_def)
  have sh: "ServeHTTP L env \<lparr>Method = ''POST'', Path = p, Body = body\<rparr> s = post_insert ?task ?s1"
    using serve_post_sent [OF ps] by (simp add: ServeHTTP_def)
  have pi: "post_insert ?task ?s1 =
      (\<lparr>code = 201, content = Text (new_uuid env)\<rparr>,
       ?s1\<lparr>progress := (progress s)(new_uuid env \<mapsto> zero_Progress)\<rparr>)"
    by (simp add: post_insert_def)
  have "Uuid ?task = new_uuid env \<and> buf (queue ?s1) = buf (queue s) @ [?task]
      \<and> progress ?s1 = progress s" by simp
  with ps sh pi
  show "\<exists>task s1.
           Uuid task = new_uuid env
           \<and> post_send L (new_uuid env) body s = Some (task, s1)
           \<and> buf (queue s1) = buf (queue s) @ [task]
           \<and> progress s1 = progress s
           \<and> ServeHTTP L env \<lparr>Method = ''POST'', Path = p, Body = body\<rparr> s = post_insert task s1
           \<and> post_insert task s1 =
               (\<lparr>code = 201, content = Text (new_uuid env)\<rparr>,
                s1\<lparr>progress := (progress s)(new_uuid env \<mapsto> zero_Progress)\<rparr>)"
    by blast
next
  fix body p resp s'
  assume a: "ServeHTTP L env \<lparr>Method = ''POST'', Path = p, Body = body\<rparr> s = (resp, s')"
    and c: "code resp = 201"
  from a have sp: "serve_post L (new_uuid env) body s = (resp, s')"
    by (simp add: ServeHTTP_def)
  obtain task s1 where ps: "post_send L (new_uuid env) body s = Some (task, s1)"
    using serve_post_rejected [of L "new_uuid env" body s] sp c
    by (cases "post_send L (new_uuid env) body s") auto
  from serve_post_sent [OF ps] sp have "post_insert task s1 = (resp, s')" by simp
  with ps show "\<exists>task s1. post_send L (new_uuid env) body s = Some (task, s1)
             \<and> post_insert task s1 = (resp, s')" by blast
next
  fix c t env' b
  assume r: "reachable L c" and t: "t \<in> set (buf (queue (server c)))"
    and ins: "Uuid t \<notin> Uuid ` set (sent c)"
    and u: "CHR ''/'' \<notin> set (Uuid t)" "Uuid t \<noteq> []" "Uuid t \<noteq> ''nodes.png''"
  from waiting_registered_reachable [OF r] t ins
  have "progress (server c) (Uuid t) = Some zero_Progress"
    by (auto simp add: waiting_registered_def)
  then have "serve_task (Uuid t) (server c) = \<lparr>code = 200, content = ProgressDoc zero_Progress\<rparr>"
    by (simp add: serve_task_def)
  with ServeHTTP_task [OF u]
  show "ServeHTTP L env' \<lparr>Method = ''GET'', Path = ''/api/'' @ Uuid t, Body = b\<rparr> (server c) =
      (\<lparr>code = 200, content = ProgressDoc zero_Progress\<rparr>, server c)"
    by simp
next
  fix task s1
  assume "dequeue s = Some (task, s1)"
  then show "serve_task (Uuid task) s1 = \<lparr>code = 200, content = ProgressDoc zero_Progress\<rparr>"
    by (auto simp add: dequeue_def serve_task_def split: list.splits)
qed

lemma test_post_send:
  "post_send test_lib ''id1'' ''bbox:[0,0,1,1]'' (test_server 100000) =
     Some (test_task ''id1'', server test_sent)"
  by (simp add: post_send_def test_parse_bbox test_estimate test_server_sel try_send_def
      test_sent_def test_task_def Let_def)

lemma test_start_reachable:
  "reachable test_lib \<lparr>server = test_server 100000, sent = [], taken = []\<rparr>"
  unfolding test_server_def by (rule reachable.started)

lemma test_sent_reachable: "reachable test_lib test_sent"
proof -
  have "step test_lib \<lparr>server = test_server 100000, sent = [], taken = []\<rparr>
      (\<lparr>server = test_server 100000, sent = [], taken = []\<rparr>
         \<lparr>server := server test_sent,
          sent := sent \<lparr>server = test_server 100000, sent = [], taken = []\<rparr> @ [test_task ''id1'']\<rparr>)"
    by (rule step.send [of _ "''id1''" "''bbox:[0,0,1,1]''"])
       (simp_all add: test_post_send test_server_sel)
  then have "step test_lib \<lparr>server = test_server 100000, sent = [], taken = []\<rparr> test_sent"
    by (simp add: test_sent_def)
  with test_start_reachable show ?thesis by (rule reachable.stepped)
qed

lemma test_received_reachable: "reachable test_lib test_received"
proof -
  have b: "buf (queue (server test_sent)) = test_task ''id1'' # []"
    by (simp add: test_sent_def)
  have "test_sent\<lparr>server := (server test_sent)\<lparr>queue := (queue (server test_sent))\<lparr>buf := []\<rparr>\<rparr>,
                  taken := test_task ''id1'' # taken test_sent\<rparr> = test_received"
    by (simp add: test_sent_def test_received_def test_server_def StartWorkers_def make_chan_def)
  with step.receive [OF b, of test_lib] have "step test_lib test_sent test_received" by simp
  with test_sent_reachable show ?thesis by (rule reachable.stepped)
qed

lemma test_waiting_inserted:
  "post_insert (test_task ''id1'') (server test_sent) =
     (\<lparr>code = 201, content = Text ''id1''\<rparr>, test_waiting)"
  by (simp add: post_insert_def test_task_sel test_sent_def test_waiting_def test_server_sel)

lemma test_waiting_system_reachable:
  "reachable test_lib \<lparr>server = test_waiting, sent = [], taken = []\<rparr>"
proof -
  have "step test_lib test_sent
      (test_sent\<lparr>server := test_waiting, sent := remove1 (test_task ''id1'') (sent test_sent)\<rparr>)"
    by (rule step.insert [OF _ test_waiting_inserted]) (simp add: test_sent_def)
  then have "step test_lib test_sent \<lparr>server = test_waiting, sent = [], taken = []\<rparr>"
    by (simp add: test_sent_def)
  with test_sent_reachable show ?thesis by (rule reachable.stepped)
qed

text \<open>
  The server accepts a task with 201; a query for the task, while it waits after the
  handler's insert, is answered with the zero \<^verbatim>\<open>Progress\<close>.
\<close>

theorem waiting_task_has_zero_progress_witness:
  "ServeHTTP test_lib (test_env ''id1'' 0 []) \<lparr>Method = ''POST'', Path = ''/'', Body = ''bbox:[0,0,1,1]''\<rparr>
     (test_server 100000) = (\<lparr>code = 201, content = Text ''id1''\<rparr>, test_waiting)
   \<and> buf (queue test_waiting) = [test_task ''id1'']
   \<and> ServeHTTP test_lib (test_env ''id2'' 5 []) \<lparr>Method = ''GET'', Path = ''/api/id1'', Body = []\<rparr>
        test_waiting = (\<lparr>code = 200, content = ProgressDoc zero_Progress\<rparr>, test_waiting)"
proof -
  note t = waiting_task_has_zero_progress [of test_lib "test_server 100000" "test_env ''id1'' 0 []"]
  have room: "length (buf (queue (test_server 100000))) < capacity (queue (test_server 100000))"
    by (simp add: test_server_sel)
  have adm: "\<not> nodesLimit (test_server 100000)
      < GetSum test_lib (image_raster (test_server 100000)) (Bound (0, 0) (1, 1))"
    by (simp add: test_server_sel test_estimate)
  from t [THEN conjunct1, rule_format, OF test_parse_bbox adm room, of "''/''"]
  obtain task s1 where ps: "post_send test_lib ''id1'' ''bbox:[0,0,1,1]'' (test_server 100000) = Some (task, s1)"
    and sh: "ServeHTTP test_lib (test_env ''id1'' 0 [])
        \<lparr>Method = ''POST'', Path = ''/'', Body = ''bbox:[0,0,1,1]''\<rparr> (test_server 100000)
        = post_insert task s1"
    by (auto simp add: test_env_sel)
  from ps test_post_send have "task = test_task ''id1''" "s1 = server test_sent" by simp_all
  with sh test_waiting_inserted
  have a: "ServeHTTP test_lib (test_env ''id1'' 0 [])
      \<lparr>Method = ''POST'', Path = ''/'', Body = ''bbox:[0,0,1,1]''\<rparr> (test_server 100000)
      = (\<lparr>code = 201, content = Text ''id1''\<rparr>, test_waiting)" by simp
  have b: "buf (queue test_waiting) = [test_task ''id1'']"
    by (simp add: test_waiting_sel)
  have c: "ServeHTTP test_lib (test_env ''id2'' 5 []) \<lparr>Method = ''GET'', Path = ''/api/id1'', Body = []\<rparr>
        test_waiting = (\<lparr>code = 200, content = ProgressDoc zero_Progress\<rparr>, test_waiting)"
    using t [THEN conjunct2, THEN conjunct2, THEN conjunct1, rule_format,
        OF test_waiting_system_reachable, of "test_task ''id1''" "test_env ''id2'' 5 []" "[]"]
    by (simp add: test_waiting_sel test_task_sel)
  from a b c show ?thesis by simp
qed

text \<open>
  Against the claim as it was made. The handler has sent the task and not yet stored its
  entry: the task waits in the queue, the registry has nothing under its identifier, and
  a query for it is answered 404. And a worker can receive the task in that state, so
  that the task has left the queue before the handler's insert.
\<close>

theorem waiting_task_unregistered_counterexample:
  "reachable test_lib test_sent
   \<and> buf (queue (server test_sent)) = [test_task ''id1'']
   \<and> progress (server test_sent) ''id1'' = None
   \<and> ServeHTTP test_lib (test_env ''id2'' 5 []) \<lparr>Method = ''GET'', Path = ''/api/id1'', Body = []\<rparr>
        (server test_sent) = (\<lparr>code = 404, content = NoBody\<rparr>, server test_sent)
   \<and> reachable test_lib test_received
   \<and> buf (queue (server test_received)) = []
   \<and> taken test_received = [test_task ''id1'']
   \<and> sent test_received = [test_task ''id1'']
   \<and> progress (server test_received) ''id1'' = None"
proof -
  have "ServeHTTP test_lib (test_env ''id2'' 5 []) \<lparr>Method = ''GET'', Path = ''/api/'' @ ''id1'', Body = []\<rparr>
        (server test_sent) = (serve_task ''id1'' (server test_sent), server test_sent)"
    by (rule ServeHTTP_task) simp_all
  moreover have "serve_task ''id1'' (server test_sent) = \<lparr>code = 404, content = NoBody\<rparr>"
    by (simp add: serve_task_def test_sent_def test_server_sel)
  ultimately have "ServeHTTP test_lib (test_env ''id2'' 5 []) \<lparr>Method = ''GET'', Path = ''/api/id1'', Body = []\<rparr>
        (server test_sent) = (\<lparr>code = 404, content = NoBody\<rparr>, server test_sent)"
    by simp
  with test_sent_reachable test_received_reachable show ?thesis
    by (simp add: test_sent_def test_received_def test_server_sel)
qed

end
